theory Spec2Isabelle
  imports Complex_Main "HOL-Library.List_Lexorder" "HOL-Library.Char_ord"
begin

section \<open>Python primitives used by the modules\<close>

text \<open>
  Python floats are modelled as \<^typ>\<open>real\<close>, Python ints as \<^typ>\<open>int\<close>.  Exceptions are
  values of the type \<open>error\<close>; a function that may raise returns \<open>error + 'a\<close>.
\<close>

datatype error = ValueError string | ZeroDivisionError | StatisticsError string

text \<open>\<^verbatim>\<open>int(x)\<close> on a float truncates toward zero.\<close>

definition py_int :: "real \<Rightarrow> int" where
  "py_int x = (if 0 \<le> x then \<lfloor>x\<rfloor> else \<lceil>x\<rceil>)"

text \<open>\<^verbatim>\<open>round(x)\<close> rounds to the nearest integer, ties to the even one.\<close>

definition py_round :: "real \<Rightarrow> int" where
  "py_round x =
     (let f = \<lfloor>x\<rfloor>; d = x - of_int f
      in if d < 1 / 2 then f
         else if 1 / 2 < d then f + 1
         else if even f then f else f + 1)"

text \<open>\<^verbatim>\<open>round(x, 1)\<close>: one decimal, ties to even.\<close>

definition py_round1 :: "real \<Rightarrow> real" where
  "py_round1 x = of_int (py_round (x * 10)) / 10"

text \<open>
  \<^verbatim>\<open>xs[i:j]\<close> for \<open>i \<ge> 0\<close> and any integer \<open>j\<close>: a negative \<open>j\<close> counts from the end,
  and both bounds are clipped to the list.
\<close>

definition py_slice :: "'a list \<Rightarrow> nat \<Rightarrow> int \<Rightarrow> 'a list" where
  "py_slice xs i j =
     (let n = int (length xs);
          hi = (if j < 0 then max 0 (n + j) else min j n)
      in drop i (take (nat hi) xs))"

text \<open>\<^verbatim>\<open>xs[:n]\<close>.\<close>

definition py_take :: "int \<Rightarrow> 'a list \<Rightarrow> 'a list" where
  "py_take n xs = py_slice xs 0 n"

text \<open>\<^verbatim>\<open>range(n)\<close> is empty for \<open>n \<le> 0\<close>.\<close>

definition py_range :: "int \<Rightarrow> nat list" where
  "py_range n = [0..<nat n]"

text \<open>
  Float arithmetic.  Each operation on Python floats rounds its exact result to a double,
  and \<^verbatim>\<open>sum\<close> and \<^verbatim>\<open>round\<close> do so in ways that depend on the interpreter.  Where a
  result decides a comparison (the score of a window, the means of a trend, a confidence,
  a threshold), the operations are the fields of a parameter \<open>F\<close>, so that what is proved
  holds however they round; \<open>exact_ops\<close> are the operations without rounding, which agree
  with the interpreter wherever every intermediate result is a double.
\<close>

record float_ops =
  fadd :: "real \<Rightarrow> real \<Rightarrow> real"
  fsub :: "real \<Rightarrow> real \<Rightarrow> real"
  fmul :: "real \<Rightarrow> real \<Rightarrow> real"
  fdiv :: "real \<Rightarrow> real \<Rightarrow> real"
  fpow :: "real \<Rightarrow> real \<Rightarrow> real"
  fsum :: "real list \<Rightarrow> real"
  fround :: "real \<Rightarrow> nat \<Rightarrow> real"

definition exact_ops :: float_ops where
  "exact_ops =
     \<lparr>fadd = (+), fsub = (-), fmul = (*), fdiv = (/),
      fpow = (\<lambda>x y. if y = 2 then x * x else if y = 1 / 2 then sqrt x else x powr y),
      fsum = sum_list,
      fround = (\<lambda>x n. of_int (py_round (x * 10 ^ n)) / 10 ^ n)\<rparr>"

text \<open>Rounding a non-negative sum or product never gives a negative float.\<close>

definition sign_preserving :: "float_ops \<Rightarrow> bool" where
  "sign_preserving F \<longleftrightarrow>
     (\<forall>x y. 0 \<le> x \<and> 0 \<le> y \<longrightarrow> 0 \<le> fadd F x y \<and> 0 \<le> fmul F x y)"

text \<open>\<^verbatim>\<open>x / len(xs)\<close>, which raises when the list is empty.\<close>

definition div_len :: "float_ops \<Rightarrow> real \<Rightarrow> nat \<Rightarrow> error + real" where
  "div_len F x n = (if n = 0 then Inl ZeroDivisionError else Inr (fdiv F x (real n)))"

text \<open>
  \<^verbatim>\<open>sorted(xs, key=f)\<close> is a stable ascending sort, as \<^const>\<open>sort_key\<close> is;
  \<^verbatim>\<open>sorted(xs, key=f, reverse=True)\<close> is descending and keeps the original order of
  elements with equal keys.
\<close>

definition sorted_reverse :: "('a \<Rightarrow> 'k::linorder) \<Rightarrow> 'a list \<Rightarrow> 'a list" where
  "sorted_reverse f xs = rev (sort_key f (rev xs))"

section \<open>analyzer.py\<close>

datatype OpportunityRating = EXCELLENT | GOOD | AVERAGE | POOR

text \<open>A \<^verbatim>\<open>datetime\<close> is a count of microseconds; \<^verbatim>\<open>timedelta(minutes=m)\<close> is \<open>m\<close> minutes of them.\<close>

type_synonym datetime = int

definition timedelta_minutes :: "int \<Rightarrow> int" where
  "timedelta_minutes m = m * 60000000"

record PriceSlot =
  ps_time :: datetime
  ps_price :: real
  ps_source :: string

record CarbonSlot =
  cs_time :: datetime
  cs_intensity :: int

text \<open>The dictionaries \<^verbatim>\<open>{"time": .., "price": .., "carbon": ..}\<close> built by \<^verbatim>\<open>_align_data\<close>.\<close>

record AlignedSlot =
  time :: datetime
  price :: real
  carbon :: int

record ChargingWindow =
  start :: datetime
  end_time :: datetime
  avg_price :: real
  avg_carbon :: int
  total_cost :: real
  total_carbon :: int
  opportunity_score :: real
  rating :: OpportunityRating
  reason :: string
  savings_vs_baseline :: real

record Analyzer =
  price_weight :: real
  carbon_weight :: real
  price_excellent :: real
  price_good :: real
  price_average :: real
  carbon_excellent :: real
  carbon_good :: real
  carbon_average :: real

text \<open>\<^verbatim>\<open>Analyzer.__init__\<close>: raises when the weights are further than 0.01 from summing to 1.\<close>

definition Analyzer_init ::
  "real \<Rightarrow> real \<Rightarrow> real \<Rightarrow> real \<Rightarrow> real \<Rightarrow> real \<Rightarrow> real \<Rightarrow> real \<Rightarrow> error + Analyzer" where
  "Analyzer_init pw cw pe pg pa ce cg ca =
     (if \<bar>pw + cw - 1\<bar> > 1 / 100 then Inl (ValueError ''Weights must sum to 1.0'')
      else Inr \<lparr>price_weight = pw, carbon_weight = cw,
                price_excellent = pe, price_good = pg, price_average = pa,
                carbon_excellent = ce, carbon_good = cg, carbon_average = ca\<rparr>)"

text \<open>The analyzer built from the class defaults, \<^verbatim>\<open>Analyzer()\<close>.\<close>

definition default_analyzer :: Analyzer where
  "default_analyzer =
     \<lparr>price_weight = 6 / 10, carbon_weight = 4 / 10,
      price_excellent = 10, price_good = 15, price_average = 20,
      carbon_excellent = 100, carbon_good = 150, carbon_average = 200\<rparr>"

text \<open>An analyzer whose weights sum to 1.005, inside the constructor's tolerance.\<close>

definition skewed_analyzer :: Analyzer where
  "skewed_analyzer =
     \<lparr>price_weight = 1 / 2, carbon_weight = 101 / 200,
      price_excellent = 10, price_good = 15, price_average = 20,
      carbon_excellent = 100, carbon_good = 150, carbon_average = 200\<rparr>"

definition calculate_price_score :: "Analyzer \<Rightarrow> real \<Rightarrow> real" where
  "calculate_price_score a p =
     (if p \<le> price_excellent a then 100
      else if p \<le> price_good a then 75
      else if p \<le> price_average a then 50
      else 25)"

definition calculate_carbon_score :: "Analyzer \<Rightarrow> real \<Rightarrow> real" where
  "calculate_carbon_score a c =
     (if c \<le> carbon_excellent a then 100
      else if c \<le> carbon_good a then 75
      else if c \<le> carbon_average a then 50
      else 25)"

definition calculate_opportunity_score :: "Analyzer \<Rightarrow> real \<Rightarrow> real \<Rightarrow> real" where
  "calculate_opportunity_score a p c =
     price_weight a * calculate_price_score a p
       + carbon_weight a * calculate_carbon_score a c"

text \<open>
  \<^verbatim>\<open>calculate_opportunity_score\<close> as the interpreter evaluates it, with both products and
  the sum rounded; with \<open>exact_ops\<close> it is the function above.
\<close>

definition computed_opportunity_score :: "float_ops \<Rightarrow> Analyzer \<Rightarrow> real \<Rightarrow> real \<Rightarrow> real" where
  "computed_opportunity_score F a p c =
     fadd F (fmul F (price_weight a) (calculate_price_score a p))
            (fmul F (carbon_weight a) (calculate_carbon_score a c))"

definition classify_opportunity :: "real \<Rightarrow> OpportunityRating" where
  "classify_opportunity score =
     (if score \<ge> 90 then EXCELLENT
      else if score \<ge> 70 then GOOD
      else if score \<ge> 50 then AVERAGE
      else POOR)"

definition determine_reason :: "Analyzer \<Rightarrow> real \<Rightarrow> real \<Rightarrow> string" where
  "determine_reason a p c =
     (let is_cheap = (p \<le> price_good a); is_clean = (c \<le> carbon_good a)
      in if is_cheap \<and> is_clean then ''both''
         else if is_cheap then ''cheap''
         else if is_clean then ''clean''
         else ''neither'')"

text \<open>\<^verbatim>\<open>ChargingWindow.has_negative_pricing\<close> and \<^verbatim>\<open>get_earnings_estimate\<close>.\<close>

definition has_negative_pricing :: "ChargingWindow \<Rightarrow> bool" where
  "has_negative_pricing w = (avg_price w < 0)"

definition get_earnings_estimate :: "ChargingWindow \<Rightarrow> real \<Rightarrow> real option" where
  "get_earnings_estimate w kwh =
     (if \<not> has_negative_pricing w then None
      else Some \<bar>avg_price w * kwh / 100\<bar>)"

text \<open>
  \<^verbatim>\<open>_align_data\<close>: the carbon dictionary keeps the last intensity given for a time; the
  price slots with a carbon value are collected in their order and sorted by time.
\<close>

definition align_data :: "PriceSlot list \<Rightarrow> CarbonSlot list \<Rightarrow> AlignedSlot list" where
  "align_data price_slots carbon_slots =
     (let carbon_lookup = map_of (rev (map (\<lambda>s. (cs_time s, cs_intensity s)) carbon_slots));
          aligned = List.map_filter
            (\<lambda>p. case carbon_lookup (ps_time p) of
                    None \<Rightarrow> None
                  | Some c \<Rightarrow> Some \<lparr>time = ps_time p, price = ps_price p, carbon = c\<rparr>)
            price_slots
      in sort_key time aligned)"

text \<open>
  \<^verbatim>\<open>_calculate_baseline_cost\<close>: the window starting at the first slot at or after the
  baseline time; the fixed 5.0 when there is none or it is too short.
\<close>

fun baseline_slots_from ::
  "AlignedSlot list \<Rightarrow> datetime \<Rightarrow> int \<Rightarrow> nat list \<Rightarrow> AlignedSlot list" where
  "baseline_slots_from aligned_data baseline_time slots_needed [] = []"
| "baseline_slots_from aligned_data baseline_time slots_needed (i # rest) =
     (if time (aligned_data ! i) \<ge> baseline_time
      then py_slice aligned_data i (int i + slots_needed)
      else baseline_slots_from aligned_data baseline_time slots_needed rest)"

definition calculate_baseline_cost ::
  "float_ops \<Rightarrow> AlignedSlot list \<Rightarrow> datetime \<Rightarrow> int \<Rightarrow> real \<Rightarrow> real" where
  "calculate_baseline_cost F aligned_data baseline_time slots_needed kwh_charged =
     (let baseline_slots =
            baseline_slots_from aligned_data baseline_time slots_needed
              [0..<length aligned_data]
      in if baseline_slots = [] \<or> int (length baseline_slots) < slots_needed then 5
         else fdiv F (fsum F (map price baseline_slots)) (real (length baseline_slots))
                * kwh_charged / 100)"

text \<open>
  The body of the search loop of \<^verbatim>\<open>find_optimal_window\<close>: the score of one window.  The
  prices are floats and are summed as floats; the carbon intensities are ints, whose sum is
  exact and is rounded by the division only.
\<close>

definition window_score :: "float_ops \<Rightarrow> Analyzer \<Rightarrow> AlignedSlot list \<Rightarrow> error + real" where
  "window_score F a window_slots =
     (case div_len F (fsum F (map price window_slots)) (length window_slots) of
        Inl e \<Rightarrow> Inl e
      | Inr avg_p \<Rightarrow>
          (case div_len F (real_of_int (sum_list (map carbon window_slots)))
                  (length window_slots) of
             Inl e \<Rightarrow> Inl e
           | Inr avg_c \<Rightarrow> Inr (computed_opportunity_score F a avg_p avg_c)))"

text \<open>
  The loop \<^verbatim>\<open>for i in range(len(aligned_data) - slots_needed + 1)\<close>, over the list of
  indices still to visit, carrying \<^verbatim>\<open>(best_score, best_window)\<close>.
\<close>

fun search_windows ::
  "float_ops \<Rightarrow> Analyzer \<Rightarrow> AlignedSlot list \<Rightarrow> int \<Rightarrow> nat list \<Rightarrow> real \<times> AlignedSlot list option
     \<Rightarrow> error + (real \<times> AlignedSlot list option)" where
  "search_windows F a aligned_data slots_needed [] best = Inr best"
| "search_windows F a aligned_data slots_needed (i # rest) (best_score, best_window) =
     (let window_slots = py_slice aligned_data i (int i + slots_needed)
      in case window_score F a window_slots of
           Inl e \<Rightarrow> Inl e
         | Inr score \<Rightarrow>
             if score > best_score
             then search_windows F a aligned_data slots_needed rest (score, Some window_slots)
             else search_windows F a aligned_data slots_needed rest (best_score, best_window))"

text \<open>
  The part of \<^verbatim>\<open>find_optimal_window\<close> after the loop: the metrics of the best window.
  The two averages are computed as in the loop; the totals derived from them are given in
  exact arithmetic.
\<close>

definition window_metrics ::
  "float_ops \<Rightarrow> Analyzer \<Rightarrow> AlignedSlot list \<Rightarrow> real \<Rightarrow> datetime option \<Rightarrow> int \<Rightarrow> real
     \<Rightarrow> AlignedSlot list \<Rightarrow> ChargingWindow" where
  "window_metrics F a aligned_data charge_duration_hours baseline_time slots_needed
       best_score best_window =
     (let start_time = time (hd best_window);
          end_t = time (last best_window) + timedelta_minutes 30;
          avg_p = fdiv F (fsum F (map price best_window)) (real (length best_window));
          avg_c = py_int (fdiv F (real_of_int (sum_list (map carbon best_window)))
                            (real (length best_window)));
          kwh_charged = charge_duration_hours * (74 / 10);
          total_c = (avg_p * kwh_charged) / 100;
          total_carb = py_int (real_of_int avg_c * kwh_charged);
          baseline_cost =
            (case baseline_time of
               Some bt \<Rightarrow> calculate_baseline_cost F aligned_data bt slots_needed kwh_charged
             | None \<Rightarrow> total_c * (3 / 2));
          savings = baseline_cost - total_c
      in \<lparr>start = start_time, end_time = end_t, avg_price = avg_p, avg_carbon = avg_c,
          total_cost = total_c, total_carbon = total_carb, opportunity_score = best_score,
          rating = classify_opportunity best_score,
          reason = determine_reason a avg_p (real_of_int avg_c),
          savings_vs_baseline = savings\<rparr>)"

definition find_optimal_window ::
  "float_ops \<Rightarrow> Analyzer \<Rightarrow> PriceSlot list \<Rightarrow> CarbonSlot list \<Rightarrow> real \<Rightarrow> datetime option
     \<Rightarrow> error + ChargingWindow" where
  "find_optimal_window F a price_slots carbon_slots charge_duration_hours baseline_time =
     (if price_slots = [] \<or> carbon_slots = []
      then Inl (ValueError ''Price and carbon data required'')
      else
        let aligned_data = align_data price_slots carbon_slots
        in if aligned_data = []
           then Inl (ValueError ''No overlapping price and carbon data found'')
           else
             let slots_needed = py_int (charge_duration_hours * 2)
             in case search_windows F a aligned_data slots_needed
                       (py_range (int (length aligned_data) - slots_needed + 1)) (- 1, None) of
                  Inl e \<Rightarrow> Inl e
                | Inr (best_score, best_window) \<Rightarrow>
                    (case best_window of
                       None \<Rightarrow> Inl (ValueError ''No valid charging window found'')
                     | Some bw \<Rightarrow>
                         if bw = [] then Inl (ValueError ''No valid charging window found'')
                         else Inr (window_metrics F a aligned_data charge_duration_hours
                                     baseline_time slots_needed best_score bw)))"

text \<open>
  The spec's words for the search: the window of \<open>k\<close> consecutive aligned slots starting at
  index \<open>i\<close>, and its opportunity score, computed from the arithmetic mean price and the
  mean carbon of the window with the float operations \<open>F\<close>.
\<close>

definition spec_window :: "AlignedSlot list \<Rightarrow> int \<Rightarrow> nat \<Rightarrow> AlignedSlot list" where
  "spec_window al k i = take (nat k) (drop i al)"

definition spec_window_score ::
  "float_ops \<Rightarrow> Analyzer \<Rightarrow> AlignedSlot list \<Rightarrow> int \<Rightarrow> nat \<Rightarrow> real" where
  "spec_window_score F a al k i =
     computed_opportunity_score F a
       (fdiv F (fsum F (map price (spec_window al k i))) (real_of_int k))
       (fdiv F (real_of_int (sum_list (map carbon (spec_window al k i)))) (real_of_int k))"

text \<open>Half-hourly test series: slot \<open>i\<close> starts \<open>30 i\<close> minutes after the epoch.\<close>

definition half_hourly_prices :: "real list \<Rightarrow> PriceSlot list" where
  "half_hourly_prices xs =
     map (\<lambda>(i, x). \<lparr>ps_time = timedelta_minutes (30 * int i), ps_price = x,
                      ps_source = ''octopus''\<rparr>) (enumerate 0 xs)"

definition half_hourly_carbon :: "int list \<Rightarrow> CarbonSlot list" where
  "half_hourly_carbon xs =
     map (\<lambda>(i, x). \<lparr>cs_time = timedelta_minutes (30 * int i), cs_intensity = x\<rparr>)
       (enumerate 0 xs)"

text \<open>An analyzer with a negative carbon weight; its weights sum to 1.\<close>

definition inverted_analyzer :: Analyzer where
  "inverted_analyzer =
     \<lparr>price_weight = 2, carbon_weight = - 1,
      price_excellent = 10, price_good = 15, price_average = 20,
      carbon_excellent = 100, carbon_good = 150, carbon_average = 200\<rparr>"

text \<open>
  A day of 48 slots in which slots 4 to 11 are cheaper and cleaner than all the others, and
  every slot is under the excellent thresholds.
\<close>

definition dip_prices :: "real list" where
  "dip_prices = replicate 4 8 @ replicate 8 5 @ replicate 36 8"

definition dip_carbon :: "int list" where
  "dip_carbon = replicate 4 80 @ replicate 8 50 @ replicate 36 80"

section \<open>forecast_tracker.py\<close>

record NegativePricing =
  forecast_predicted :: bool
  actually_occurred :: bool
  correct_prediction :: bool

text \<open>
  A comparison dictionary.  Dates and timestamps are the ISO strings the source stores and
  sorts by; a dictionary read from the file may lack \<^verbatim>\<open>"negative_pricing"\<close>.
\<close>

record ComparisonRecord =
  date :: string
  timestamp :: string
  forecast_source :: string
  num_hours :: nat
  mean_absolute_error :: real
  mean_error :: real
  max_error :: real
  min_error :: real
  forecast_avg :: real
  actual_avg :: real
  rmse :: real
  forecast_min :: real
  actual_min :: real
  forecast_max :: real
  actual_max :: real
  errors :: "real list"
  negative_pricing :: "NegativePricing option"

text \<open>
  The metrics of \<^verbatim>\<open>record_comparison\<close>.  \<open>comparison_date\<close> is the ISO form of the date and
  \<open>now\<close> the ISO form of the clock reading.  The first division by the length raises on
  empty lists.
\<close>

definition comparison_metrics ::
  "string \<Rightarrow> string \<Rightarrow> real list \<Rightarrow> real list \<Rightarrow> string \<Rightarrow> error + ComparisonRecord" where
  "comparison_metrics comparison_date now forecast_prices actual_prices source =
     (if length forecast_prices \<noteq> length actual_prices
      then Inl (ValueError ''Price lists must be same length'')
      else
        let errs = map (\<lambda>(actual, forecast). actual - forecast)
                     (zip actual_prices forecast_prices);
            abs_errors = map abs errs
        in if length abs_errors = 0 then Inl ZeroDivisionError
           else
             let forecast_negative = (\<exists>p \<in> set forecast_prices. p < 0);
                 actual_negative = (\<exists>p \<in> set actual_prices. p < 0)
             in Inr \<lparr>date = comparison_date, timestamp = now, forecast_source = source,
                      num_hours = length forecast_prices,
                      mean_absolute_error = sum_list abs_errors / real (length abs_errors),
                      mean_error = sum_list errs / real (length errs),
                      max_error = Max (set abs_errors),
                      min_error = Min (set abs_errors),
                      forecast_avg = sum_list forecast_prices / real (length forecast_prices),
                      actual_avg = sum_list actual_prices / real (length actual_prices),
                      rmse = sqrt (sum_list (map (\<lambda>e. e ^ 2) errs) / real (length errs)),
                      forecast_min = Min (set forecast_prices),
                      actual_min = Min (set actual_prices),
                      forecast_max = Max (set forecast_prices),
                      actual_max = Max (set actual_prices),
                      errors = py_take 10 errs,
                      negative_pricing =
                        Some \<lparr>forecast_predicted = forecast_negative,
                              actually_occurred = actual_negative,
                              correct_prediction = (forecast_negative = actual_negative)\<rparr>\<rparr>)"

text \<open>\<^verbatim>\<open>_save_comparison\<close>: one record per date, newest first, at most 90.\<close>

definition save_comparison ::
  "ComparisonRecord list \<Rightarrow> ComparisonRecord \<Rightarrow> ComparisonRecord list" where
  "save_comparison comparisons metrics =
     py_take 90
       (sorted_reverse date (filter (\<lambda>c. date c \<noteq> date metrics) comparisons @ [metrics]))"

text \<open>\<^verbatim>\<open>record_comparison\<close> on the stored list: the new list and the metrics returned.\<close>

definition record_comparison ::
  "ComparisonRecord list \<Rightarrow> string \<Rightarrow> string \<Rightarrow> real list \<Rightarrow> real list \<Rightarrow> string
     \<Rightarrow> error + (ComparisonRecord list \<times> ComparisonRecord)" where
  "record_comparison comparisons comparison_date now forecast_prices actual_prices source =
     (case comparison_metrics comparison_date now forecast_prices actual_prices source of
        Inl e \<Rightarrow> Inl e
      | Inr metrics \<Rightarrow> Inr (save_comparison comparisons metrics, metrics))"

text \<open>The result of \<^verbatim>\<open>get_recent_accuracy\<close>; the two early returns fill three keys only.\<close>

record AccuracyStats =
  num_comparisons :: nat
  period_days :: "int option"
  stats_mean_absolute_error :: "real option"
  median_absolute_error :: "real option"
  systematic_bias :: "real option"
  best_day_mae :: "real option"
  worst_day_mae :: "real option"
  trend :: string
  negative_pricing_predictions :: "nat option"
  negative_pricing_correct :: "nat option"
  negative_pricing_accuracy :: "real option"
  last_updated :: "string option"

text \<open>
  The trend block of \<^verbatim>\<open>get_recent_accuracy\<close>, on the MAE values newest first.  The two
  means and the two sides of the comparisons are floats.
\<close>

definition calculate_trend :: "float_ops \<Rightarrow> real list \<Rightarrow> string" where
  "calculate_trend F mae_values =
     (if length mae_values \<ge> 7 then
        let recent_7 = py_take 7 mae_values;
            older_7 = (if length mae_values \<ge> 14 then py_slice mae_values 7 14
                       else drop 7 mae_values)
        in if older_7 \<noteq> [] then
             let recent_avg = fdiv F (fsum F recent_7) (real (length recent_7));
                 older_avg = fdiv F (fsum F older_7) (real (length older_7))
             in if recent_avg < fsub F older_avg (1 / 2) then ''improving''
                else if recent_avg > fadd F older_avg (1 / 2) then ''degrading''
                else ''stable''
           else ''insufficient_data''
      else ''insufficient_data'')"

definition early_stats :: "string \<Rightarrow> AccuracyStats" where
  "early_stats t =
     \<lparr>num_comparisons = 0, period_days = None, stats_mean_absolute_error = None,
      median_absolute_error = None, systematic_bias = None, best_day_mae = None,
      worst_day_mae = None, trend = t, negative_pricing_predictions = None,
      negative_pricing_correct = None, negative_pricing_accuracy = None,
      last_updated = None\<rparr>"

definition get_recent_accuracy ::
  "float_ops \<Rightarrow> ComparisonRecord list \<Rightarrow> int \<Rightarrow> AccuracyStats" where
  "get_recent_accuracy F comparisons days =
     (if comparisons = [] then early_stats ''insufficient_data''
      else
        let recent = py_take days (sorted_reverse date comparisons)
        in if recent = [] then early_stats ''no_recent_data''
           else
             let mae_values = map mean_absolute_error recent;
                 bias_values = map mean_error recent;
                 neg_predictions = length (filter
                   (\<lambda>c. case negative_pricing c of None \<Rightarrow> False
                        | Some n \<Rightarrow> forecast_predicted n) recent);
                 neg_correct = length (filter
                   (\<lambda>c. case negative_pricing c of None \<Rightarrow> False
                        | Some n \<Rightarrow> correct_prediction n) recent)
             in \<lparr>num_comparisons = length recent, period_days = Some days,
                 stats_mean_absolute_error =
                   Some (fdiv F (fsum F mae_values) (real (length mae_values))),
                 median_absolute_error = Some (sort mae_values ! (length mae_values div 2)),
                 systematic_bias =
                   Some (fdiv F (fsum F bias_values) (real (length bias_values))),
                 best_day_mae = Some (Min (set mae_values)),
                 worst_day_mae = Some (Max (set mae_values)),
                 trend = calculate_trend F mae_values,
                 negative_pricing_predictions = Some neg_predictions,
                 negative_pricing_correct = Some neg_correct,
                 negative_pricing_accuracy =
                   (if neg_predictions > 0
                    then Some (fdiv F (real neg_correct) (real neg_predictions))
                    else None),
                 last_updated = Some (timestamp (hd recent))\<rparr>)"

text \<open>A stored record with the given date and MAE.\<close>

definition day_record :: "string \<Rightarrow> real \<Rightarrow> ComparisonRecord" where
  "day_record d m =
     \<lparr>date = d, timestamp = d, forecast_source = ''guy_lipman'', num_hours = 24,
      mean_absolute_error = m, mean_error = 0, max_error = m, min_error = m,
      forecast_avg = 10, actual_avg = 10, rmse = m, forecast_min = 10, actual_min = 10,
      forecast_max = 10, actual_max = 10, errors = [], negative_pricing = None\<rparr>"

text \<open>
  Nine stored records out of date order.  By date, the seven most recent (3 to 9 December)
  have MAEs of mean 2 and the two older ones MAEs of mean 5; the first seven as stored have
  MAEs of mean 3.
\<close>

definition shuffled_days :: "ComparisonRecord list" where
  "shuffled_days =
     [day_record ''2025-12-01'' 6, day_record ''2025-12-02'' 4, day_record ''2025-12-09'' 1,
      day_record ''2025-12-05'' 1, day_record ''2025-12-07'' 3, day_record ''2025-12-04'' 3,
      day_record ''2025-12-08'' 2, day_record ''2025-12-03'' 2, day_record ''2025-12-06'' 2]"

definition eight_days :: "ComparisonRecord list" where
  "eight_days =
     [day_record ''2025-12-01'' 1, day_record ''2025-12-02'' 1, day_record ''2025-12-03'' 1,
      day_record ''2025-12-04'' 1, day_record ''2025-12-05'' 1, day_record ''2025-12-06'' 1,
      day_record ''2025-12-07'' 1, day_record ''2025-12-08'' 1]"

section \<open>forecast_evolution.py\<close>

text \<open>
  A \<^verbatim>\<open>date\<close> is its proleptic Gregorian ordinal, so that \<open>target - today\<close> is the number
  of days between them.  The source stores and compares a snapshot's date as the ISO string
  \<^verbatim>\<open>today.isoformat()\<close>, which is zero-padded and so is equal, and ordered, exactly as the
  dates are; the model keeps the date.
\<close>

type_synonym date = int

text \<open>
  The \<^verbatim>\<open>day_comparison\<close> object is read with \<^verbatim>\<open>getattr\<close> and \<^verbatim>\<open>hasattr\<close>: an attribute
  it lacks is \<open>None\<close> here.
\<close>

record DayComparison =
  dc_price_source :: "string option"
  dc_savings_vs_today :: "real option"
  dc_cost :: "real option"
  dc_avg_price :: "real option"
  dc_rating :: "string option"
  dc_optimal_window :: "(string \<times> string) list option"

record ForecastSnapshot =
  snapshot_date :: date
  snapshot_timestamp :: string
  days_until_target :: int
  price_source :: string
  predicted_avg_price :: real
  predicted_cost :: real
  predicted_savings_pct :: real
  snapshot_rating :: string
  optimal_window :: "(string \<times> string) list"
  confidence_score :: int

record EvolutionSummary =
  initial_savings_pct :: real
  current_savings_pct :: real
  savings_drift :: real
  savings_drift_direction :: string
  price_volatility :: real
  num_snapshots :: nat
  first_snapshot :: date
  summary_last_updated :: string

record ActualResult =
  recorded_at :: string
  actual_cost :: real
  actual_avg_price :: real

record TargetForecastRecord =
  target_date :: string
  snapshots :: "ForecastSnapshot list"
  evolution_summary :: "EvolutionSummary option"
  actual_result :: "ActualResult option"

text \<open>\<^verbatim>\<open>_calculate_confidence\<close>.\<close>

definition calculate_confidence :: "float_ops \<Rightarrow> int \<Rightarrow> string \<Rightarrow> real option \<Rightarrow> int" where
  "calculate_confidence F days_until price_src historical_mae =
     (let time_score = (if days_until \<le> 1 then 100
                        else if days_until = 2 then 85
                        else if days_until \<le> 4 then 60
                        else max 30 (100 - days_until * 10));
          source_score = (if price_src = ''octopus_actual'' then 100 else 50 :: int);
          accuracy_score =
            (case historical_mae of
               None \<Rightarrow> 40
             | Some mae \<Rightarrow>
                 if mae > 5 then 40
                 else if mae < 2 then 100
                 else max 40 (fsub F 100 (fmul F mae 12)))
      in py_int (fadd F (fadd F (fmul F (40 / 100) (real_of_int time_score))
                                (fmul F (35 / 100) (real_of_int source_score)))
                        (fmul F (25 / 100) accuracy_score)))"

text \<open>\<^verbatim>\<open>_calculate_evolution_summary\<close>.\<close>

definition calculate_evolution_summary ::
  "float_ops \<Rightarrow> ForecastSnapshot list \<Rightarrow> EvolutionSummary option" where
  "calculate_evolution_summary F snaps =
     (if snaps = [] then None
      else
        let initial = hd snaps; current = last snaps;
            initial_savings = predicted_savings_pct initial;
            current_savings = predicted_savings_pct current;
            drift = fsub F current_savings initial_savings;
            costs = map predicted_cost snaps;
            volatility =
              (if length costs > 1 then
                 let mean_cost = fdiv F (fsum F costs) (real (length costs));
                     variance = fdiv F (fsum F (map (\<lambda>c. fpow F (fsub F c mean_cost) 2) costs))
                                  (real (length costs))
                 in fpow F variance (1 / 2)
               else 0)
        in Some \<lparr>initial_savings_pct = initial_savings,
                 current_savings_pct = current_savings,
                 savings_drift = fround F drift 2,
                 savings_drift_direction =
                   (if drift > 0 then ''improved''
                    else if drift < 0 then ''worsened'' else ''unchanged''),
                 price_volatility = fround F volatility 2,
                 num_snapshots = length snaps,
                 first_snapshot = snapshot_date initial,
                 summary_last_updated = snapshot_timestamp current\<rparr>)"

text \<open>The snapshot dictionary built by \<^verbatim>\<open>record_snapshot\<close>.\<close>

definition build_snapshot ::
  "float_ops \<Rightarrow> date \<Rightarrow> string \<Rightarrow> date \<Rightarrow> DayComparison \<Rightarrow> real option
     \<Rightarrow> ForecastSnapshot" where
  "build_snapshot F today now target day_comparison historical_mae =
     (let days_until = target - today;
          price_src = (case dc_price_source day_comparison of
                         None \<Rightarrow> ''unknown'' | Some s \<Rightarrow> s);
          confidence = calculate_confidence F days_until price_src historical_mae;
          savings_pct =
            (case (dc_savings_vs_today day_comparison, dc_cost day_comparison) of
               (Some savings, Some cost) \<Rightarrow>
                 let today_cost = fadd F cost savings
                 in if today_cost > 0 then fmul F (fdiv F savings today_cost) 100 else 0
             | _ \<Rightarrow> 0)
      in \<lparr>snapshot_date = today, snapshot_timestamp = now,
          days_until_target = days_until, price_source = price_src,
          predicted_avg_price = (case dc_avg_price day_comparison of
                                   None \<Rightarrow> 0 | Some p \<Rightarrow> p),
          predicted_cost = (case dc_cost day_comparison of None \<Rightarrow> 0 | Some c \<Rightarrow> c),
          predicted_savings_pct = fround F savings_pct 2,
          snapshot_rating = (case dc_rating day_comparison of
                               None \<Rightarrow> ''UNKNOWN'' | Some r \<Rightarrow> r),
          optimal_window = (case dc_optimal_window day_comparison of
                              None \<Rightarrow> [] | Some w \<Rightarrow> w),
          confidence_score = confidence\<rparr>)"

text \<open>
  \<^verbatim>\<open>record_snapshot\<close> on the \<^verbatim>\<open>target_forecasts\<close> dictionary.  \<open>strptime\<close> is the
  library's parser of \<^verbatim>\<open>"%Y-%m-%d"\<close>, which raises on a string it rejects; \<open>today\<close> and
  \<open>now\<close> are the clock's date and its ISO timestamp.
\<close>

definition record_snapshot ::
  "float_ops \<Rightarrow> (string \<Rightarrow> date option) \<Rightarrow> date \<Rightarrow> string \<Rightarrow> string \<Rightarrow> DayComparison \<Rightarrow> real option
     \<Rightarrow> (string \<rightharpoonup> TargetForecastRecord) \<Rightarrow> error + (string \<rightharpoonup> TargetForecastRecord)" where
  "record_snapshot F strptime today now tdate day_comparison historical_mae target_forecasts =
     (case strptime tdate of
        None \<Rightarrow> Inl (ValueError ''time data does not match format'')
      | Some target \<Rightarrow>
          if target < today then Inr target_forecasts
          else
            let snapshot = build_snapshot F today now target day_comparison historical_mae;
                target_data =
                  (case target_forecasts tdate of
                     None \<Rightarrow> \<lparr>target_date = tdate, snapshots = [],
                                evolution_summary = None, actual_result = None\<rparr>
                   | Some d \<Rightarrow> d);
                kept = filter (\<lambda>s. snapshot_date s \<noteq> today) (snapshots target_data);
                sorted_snaps = sort_key snapshot_date (kept @ [snapshot])
            in Inr (target_forecasts(tdate \<mapsto>
                      target_data\<lparr>snapshots := sorted_snaps,
                                  evolution_summary :=
                                    calculate_evolution_summary F sorted_snaps\<rparr>)))"

text \<open>
  The stores that sequences of \<^verbatim>\<open>record_snapshot\<close> calls produce, starting with no
  evolution file.
\<close>

inductive reachable ::
  "float_ops \<Rightarrow> (string \<Rightarrow> date option) \<Rightarrow> (string \<rightharpoonup> TargetForecastRecord) \<Rightarrow> bool"
  for F :: float_ops and strptime :: "string \<Rightarrow> date option" where
  initial: "reachable F strptime Map.empty"
| step: "reachable F strptime s \<Longrightarrow>
         record_snapshot F strptime today now tdate day_comparison historical_mae s = Inr s' \<Longrightarrow>
         reachable F strptime s'"

text \<open>The spec's words for the confidence score.\<close>

definition spec_time_score :: "int \<Rightarrow> real" where
  "spec_time_score days =
     (if days \<le> 1 then 100 else if days = 2 then 85 else if days \<le> 4 then 60
      else max 30 (100 - 10 * real_of_int days))"

definition spec_source_score :: "string \<Rightarrow> real" where
  "spec_source_score src = (if src = ''octopus_actual'' then 100 else 50)"

definition spec_accuracy_score :: "float_ops \<Rightarrow> real option \<Rightarrow> real" where
  "spec_accuracy_score F mae =
     (case mae of
        None \<Rightarrow> 40
      | Some e \<Rightarrow> if e < 2 then 100 else if e > 5 then 40
                  else max 40 (fsub F 100 (fmul F e 12)))"

definition spec_blend :: "float_ops \<Rightarrow> int \<Rightarrow> string \<Rightarrow> real option \<Rightarrow> real" where
  "spec_blend F days src mae =
     fadd F (fadd F (fmul F (40 / 100) (spec_time_score days))
                    (fmul F (35 / 100) (spec_source_score src)))
            (fmul F (25 / 100) (spec_accuracy_score F mae))"

text \<open>The invariant of the store: per target, one snapshot per day, in date order.\<close>

definition snapshots_ok :: "(string \<rightharpoonup> TargetForecastRecord) \<Rightarrow> bool" where
  "snapshots_ok s \<longleftrightarrow>
     (\<forall>tdate d. s tdate = Some d \<longrightarrow>
        distinct (map snapshot_date (snapshots d)) \<and> sorted (map snapshot_date (snapshots d)))"

text \<open>The list of snapshots a call leaves for its target.\<close>

definition updated_snapshots ::
  "float_ops \<Rightarrow> date \<Rightarrow> string \<Rightarrow> date \<Rightarrow> DayComparison \<Rightarrow> real option \<Rightarrow> ForecastSnapshot list
     \<Rightarrow> ForecastSnapshot list" where
  "updated_snapshots F today now target dc mae old =
     sort_key snapshot_date
       (filter (\<lambda>x. snapshot_date x \<noteq> today) old @ [build_snapshot F today now target dc mae])"

text \<open>
  An example: a parser that accepts the one target of the example, 15 January 2025 (day
  739266), and two forecasts for it.
\<close>

definition demo_strptime :: "string \<Rightarrow> date option" where
  "demo_strptime s = (if s = ''2025-01-15'' then Some 739266 else None)"

definition first_forecast :: DayComparison where
  "first_forecast =
     \<lparr>dc_price_source = Some ''forecast'', dc_savings_vs_today = Some 1, dc_cost = Some 3,
      dc_avg_price = Some 12, dc_rating = Some ''GOOD'', dc_optimal_window = None\<rparr>"

definition second_forecast :: DayComparison where
  "second_forecast =
     \<lparr>dc_price_source = Some ''octopus_actual'', dc_savings_vs_today = Some 2,
      dc_cost = Some 2, dc_avg_price = Some 8, dc_rating = Some ''EXCELLENT'',
      dc_optimal_window = None\<rparr>"

text \<open>
  The store after a snapshot on 13 January, after a first snapshot on 14 January, and
  after a second one that day.
\<close>

definition demo_store :: "string \<rightharpoonup> TargetForecastRecord" where
  "demo_store =
     projr (record_snapshot exact_ops demo_strptime 739264 ''2025-01-13T09:00:00+00:00''
              ''2025-01-15'' first_forecast None Map.empty)"

definition demo_store1 :: "string \<rightharpoonup> TargetForecastRecord" where
  "demo_store1 =
     projr (record_snapshot exact_ops demo_strptime 739265 ''2025-01-14T09:00:00+00:00''
              ''2025-01-15'' first_forecast None demo_store)"

definition demo_store2 :: "string \<rightharpoonup> TargetForecastRecord" where
  "demo_store2 =
     projr (record_snapshot exact_ops demo_strptime 739265 ''2025-01-14T17:00:00+00:00''
              ''2025-01-15'' second_forecast (Some 3) demo_store1)"

section \<open>threshold_tuner.py\<close>

text \<open>
  The standard library's \<^verbatim>\<open>statistics.quantiles(data, n=n)\<close> with its default method
  \<^verbatim>\<open>"exclusive"\<close>: the \<open>n - 1\<close> cut points of the sorted data, each interpolated between
  two neighbouring order statistics.
\<close>

definition quantiles :: "float_ops \<Rightarrow> real list \<Rightarrow> nat \<Rightarrow> error + real list" where
  "quantiles F data n =
     (if n < 1 then Inl (StatisticsError ''n must be at least 1'')
      else
        let d = sort data; ld = length d
        in if ld < 2 then Inl (StatisticsError ''must have at least two data points'')
           else
             let m = ld + 1
             in Inr (map (\<lambda>i.
                       let j0 = i * m div n;
                           j = (if j0 < 1 then 1 else if j0 > ld - 1 then ld - 1 else j0);
                           delta = int (i * m) - int (j * n)
                       in fdiv F (fadd F (fmul F (d ! (j - 1)) (real_of_int (int n - delta)))
                                         (fmul F (d ! j) (real_of_int delta)))
                                 (real n))
                     [1..<n]))"

text \<open>The standard library's \<^verbatim>\<open>statistics.median\<close>.\<close>

definition median :: "float_ops \<Rightarrow> real list \<Rightarrow> error + real" where
  "median F data =
     (let d = sort data; n = length d
      in if n = 0 then Inl (StatisticsError ''no median for empty data'')
         else if n mod 2 = 1 then Inr (d ! (n div 2))
         else let i = n div 2 in Inr (fdiv F (fadd F (d ! (i - 1)) (d ! i)) 2))"

text \<open>\<^verbatim>\<open>ThresholdTuner.calculate_optimal_thresholds\<close>; \<open>days_analyzed\<close> is not read.\<close>

definition calculate_optimal_thresholds ::
  "float_ops \<Rightarrow> real list \<Rightarrow> int \<Rightarrow> error + (real \<times> real)" where
  "calculate_optimal_thresholds F historical_prices days_analyzed =
     (if length historical_prices < 7 then Inr (10, 15)
      else
        case quantiles F historical_prices 4 of
          Inl e \<Rightarrow> Inl e
        | Inr qs \<Rightarrow>
            (case median F historical_prices of
               Inl e \<Rightarrow> Inl e
             | Inr good \<Rightarrow> Inr (fround F (qs ! 0) 1, fround F good 1)))"

text \<open>
  The spec's words.  The first quartile of a sample of \<open>n\<close> prices lies between the order
  statistics around the rank \<open>(n + 1) / 4\<close>, weighted by the remainder of \<open>n + 1\<close> modulo 4;
  the median is the middle order statistic, or the mean of the two middle ones.
\<close>

definition first_quartile :: "float_ops \<Rightarrow> real list \<Rightarrow> real" where
  "first_quartile F xs =
     (let s = sort xs; j = (length xs + 1) div 4; r = (length xs + 1) mod 4
      in fdiv F (fadd F (fmul F (s ! (j - 1)) (real (4 - r))) (fmul F (s ! j) (real r))) 4)"

definition middle_value :: "float_ops \<Rightarrow> real list \<Rightarrow> real" where
  "middle_value F xs =
     (let s = sort xs; n = length xs
      in if odd n then s ! (n div 2)
         else fdiv F (fadd F (s ! (n div 2 - 1)) (s ! (n div 2))) 2)"

text \<open>
  The \<open>p\<close>-th percentile of a sample in exact arithmetic, by linear interpolation between
  the order statistics around the rank \<open>p / 100 \<times> (n + 1)\<close>.
\<close>

definition percentile :: "real \<Rightarrow> real list \<Rightarrow> real" where
  "percentile p xs =
     (let s = sort xs;
          h = p / 100 * real (length xs + 1);
          lo = nat \<lfloor>h\<rfloor>;
          frac = h - real lo
      in s ! (lo - 1) + frac * (s ! lo - s ! (lo - 1)))"

definition eleven_prices :: "real list" where
  "eleven_prices = [5, 6, 7, 8, 9, 10, 11, 12, 13, 14, 15]"

section \<open>The opportunity score\<close>

lemma price_score_bounds: "25 \<le> calculate_price_score a p \<and> calculate_price_score a p \<le> 100"
  by (simp add: calculate_price_score_def)

lemma carbon_score_bounds: "25 \<le> calculate_carbon_score a c \<and> calculate_carbon_score a c \<le> 100"
  by (simp add: calculate_carbon_score_def)

lemma weighted_bounds:
  fixes w x :: real
  assumes "0 \<le> w" "25 \<le> x" "x \<le> 100"
  shows "25 * w \<le> w * x" "w * x \<le> 100 * w"
proof -
  from assms have "w * 25 \<le> w * x" by (intro mult_left_mono) auto
  then show "25 * w \<le> w * x" by (simp add: mult.commute)
  from assms have "w * x \<le> w * 100" by (intro mult_left_mono) auto
  then show "w * x \<le> 100 * w" by (simp add: mult.commute)
qed

lemma opportunity_score_scaled:
  assumes "0 \<le> price_weight a" "0 \<le> carbon_weight a"
  shows "25 * (price_weight a + carbon_weight a) \<le> calculate_opportunity_score a p c"
    and "calculate_opportunity_score a p c \<le> 100 * (price_weight a + carbon_weight a)"
proof -
  note P = price_score_bounds [of a p] and C = carbon_score_bounds [of a c]
  have p1: "25 * price_weight a \<le> price_weight a * calculate_price_score a p"
    and p2: "price_weight a * calculate_price_score a p \<le> 100 * price_weight a"
    using weighted_bounds [of "price_weight a" "calculate_price_score a p"] assms P by auto
  have c1: "25 * carbon_weight a \<le> carbon_weight a * calculate_carbon_score a c"
    and c2: "carbon_weight a * calculate_carbon_score a c \<le> 100 * carbon_weight a"
    using weighted_bounds [of "carbon_weight a" "calculate_carbon_score a c"] assms C by auto
  show "25 * (price_weight a + carbon_weight a) \<le> calculate_opportunity_score a p c"
    using p1 c1 by (simp add: calculate_opportunity_score_def algebra_simps)
  show "calculate_opportunity_score a p c \<le> 100 * (price_weight a + carbon_weight a)"
    using p2 c2 by (simp add: calculate_opportunity_score_def algebra_simps)
qed

text \<open>
  C3 (as the code has it).  The constructor accepts any weights whose sum is within 0.01
  of 1, so the score of a constructed analyzer is a blend of two values in [25, 100] with
  total weight between 0.99 and 1.01.  For non-negative weights the score lies in
  [24.75, 101], and in [25, 100] when the weights sum to exactly 1.
\<close>

theorem opportunity_score_range:
  assumes "Analyzer_init pw cw pe pg pa ce cg ca = Inr a"
    and "0 \<le> pw" and "0 \<le> cw"
  shows "99 / 4 \<le> calculate_opportunity_score a p c
       \<and> calculate_opportunity_score a p c \<le> 101
       \<and> (pw + cw = 1 \<longrightarrow>
            25 \<le> calculate_opportunity_score a p c \<and> calculate_opportunity_score a p c \<le> 100)"
proof -
  from assms(1) have tol: "\<bar>pw + cw - 1\<bar> \<le> 1 / 100"
    and pw: "price_weight a = pw" and cw: "carbon_weight a = cw"
    by (auto simp: Analyzer_init_def split: if_splits)
  have lo: "25 * (pw + cw) \<le> calculate_opportunity_score a p c"
    and hi: "calculate_opportunity_score a p c \<le> 100 * (pw + cw)"
    using opportunity_score_scaled [of a p c] assms(2,3) pw cw by auto
  from tol have "99 / 100 \<le> pw + cw" "pw + cw \<le> 101 / 100" by linarith+
  with lo hi show ?thesis by auto
qed

theorem opportunity_score_range_witness:
  "Analyzer_init (6 / 10) (4 / 10) 10 15 20 100 150 200 = Inr default_analyzer
   \<and> 25 \<le> calculate_opportunity_score default_analyzer 8 80
   \<and> calculate_opportunity_score default_analyzer 8 80 \<le> 100"
proof -
  have h: "Analyzer_init (6 / 10) (4 / 10) 10 15 20 100 150 200 = Inr default_analyzer"
    by (simp add: Analyzer_init_def default_analyzer_def)
  from opportunity_score_range [OF h, of 8 80] h show ?thesis by simp
qed

text \<open>
  The claim as stated fails: the weights 0.5 and 0.505 pass the constructor's check and
  score 100.5 for a price and a carbon value under the excellent thresholds.
\<close>

theorem opportunity_score_range_counterexample:
  "Analyzer_init (1 / 2) (101 / 200) 10 15 20 100 150 200 = Inr skewed_analyzer
   \<and> calculate_opportunity_score skewed_analyzer 0 0 = 201 / 2
   \<and> \<not> calculate_opportunity_score skewed_analyzer 0 0 \<le> 100"
  by (simp add: Analyzer_init_def skewed_analyzer_def calculate_opportunity_score_def
      calculate_price_score_def calculate_carbon_score_def)

section \<open>The window search\<close>

lemma window_score_error: "window_score F a w = Inl e \<Longrightarrow> e = ZeroDivisionError"
  by (auto simp: window_score_def div_len_def split: sum.splits if_splits)

lemma window_score_Nil: "window_score F a [] = Inl ZeroDivisionError"
  by (simp add: window_score_def div_len_def)

lemma window_score_Inr:
  "w \<noteq> [] \<Longrightarrow> window_score F a w =
     Inr (computed_opportunity_score F a
            (fdiv F (fsum F (map price w)) (real (length w)))
            (fdiv F (real_of_int (sum_list (map carbon w))) (real (length w))))"
  by (simp add: window_score_def div_len_def)

lemma search_windows_empty_slice:
  assumes "i \<in> set idxs" "py_slice al i (int i + k) = []"
  shows "search_windows F a al k idxs best = Inl ZeroDivisionError"
  using assms
proof (induction idxs arbitrary: best)
  case Nil
  then show ?case by simp
next
  case (Cons j rest)
  obtain bs bw where best: "best = (bs, bw)" by (cases best)
  show ?case
  proof (cases "window_score F a (py_slice al j (int j + k))")
    case (Inl e)
    then show ?thesis using window_score_error [OF Inl] best by simp
  next
    case (Inr sc)
    with Cons.prems have "j \<noteq> i" by (auto simp: window_score_Nil)
    with Cons.prems have "i \<in> set rest" by simp
    with Cons.IH Cons.prems(2) Inr best show ?thesis by simp
  qed
qed

lemma search_windows_best:
  assumes "\<forall>i \<in> set idxs. window_score F a (py_slice al i (int i + k)) = Inr (sc i)"
  shows "\<exists>res. search_windows F a al k idxs (bs, bw) = Inr res \<and>
     (((\<forall>i \<in> set idxs. sc i \<le> bs) \<and> res = (bs, bw)) \<or>
      (\<exists>m < length idxs. res = (sc (idxs ! m), Some (py_slice al (idxs ! m) (int (idxs ! m) + k)))
          \<and> bs < sc (idxs ! m)
          \<and> (\<forall>j < length idxs. sc (idxs ! j) \<le> sc (idxs ! m))
          \<and> (\<forall>j < m. sc (idxs ! j) < sc (idxs ! m))))"
  using assms
proof (induction idxs arbitrary: bs bw)
  case Nil
  then show ?case by simp
next
  case (Cons i rest)
  have sci: "window_score F a (py_slice al i (int i + k)) = Inr (sc i)"
    and rest: "\<forall>i \<in> set rest. window_score F a (py_slice al i (int i + k)) = Inr (sc i)"
    using Cons.prems by auto
  show ?case
  proof (cases "sc i > bs")
    case True
    from Cons.IH [OF rest, of "sc i" "Some (py_slice al i (int i + k))"]
    obtain res where res: "search_windows F a al k rest (sc i, Some (py_slice al i (int i + k))) = Inr res"
      and alt: "((\<forall>j \<in> set rest. sc j \<le> sc i) \<and> res = (sc i, Some (py_slice al i (int i + k)))) \<or>
      (\<exists>m < length rest. res = (sc (rest ! m), Some (py_slice al (rest ! m) (int (rest ! m) + k)))
          \<and> sc i < sc (rest ! m)
          \<and> (\<forall>j < length rest. sc (rest ! j) \<le> sc (rest ! m))
          \<and> (\<forall>j < m. sc (rest ! j) < sc (rest ! m)))" by blast
    have run: "search_windows F a al k (i # rest) (bs, bw) = Inr res"
      using sci True res by simp
    from alt show ?thesis
    proof
      assume A: "(\<forall>j \<in> set rest. sc j \<le> sc i) \<and> res = (sc i, Some (py_slice al i (int i + k)))"
      have "\<forall>j < length (i # rest). sc ((i # rest) ! j) \<le> sc ((i # rest) ! 0)"
        using A by (auto simp: nth_Cons split: nat.splits)
      with A True run show ?thesis
        by (intro exI [of _ res]) (auto intro!: exI [of _ 0])
    next
      assume "\<exists>m < length rest. res = (sc (rest ! m), Some (py_slice al (rest ! m) (int (rest ! m) + k)))
          \<and> sc i < sc (rest ! m)
          \<and> (\<forall>j < length rest. sc (rest ! j) \<le> sc (rest ! m))
          \<and> (\<forall>j < m. sc (rest ! j) < sc (rest ! m))"
      then obtain m where m: "m < length rest"
        "res = (sc (rest ! m), Some (py_slice al (rest ! m) (int (rest ! m) + k)))"
        "sc i < sc (rest ! m)" "\<forall>j < length rest. sc (rest ! j) \<le> sc (rest ! m)"
        "\<forall>j < m. sc (rest ! j) < sc (rest ! m)" by blast
      have 1: "\<forall>j < length (i # rest). sc ((i # rest) ! j) \<le> sc ((i # rest) ! Suc m)"
        using m by (auto simp: nth_Cons split: nat.splits)
      have 2: "\<forall>j < Suc m. sc ((i # rest) ! j) < sc ((i # rest) ! Suc m)"
        using m by (auto simp: nth_Cons split: nat.splits)
      have 3: "bs < sc ((i # rest) ! Suc m)" using True m(3) by simp
      have 4: "res = (sc ((i # rest) ! Suc m), Some (py_slice al ((i # rest) ! Suc m) (int ((i # rest) ! Suc m) + k)))"
        using m(2) by simp
      have 5: "Suc m < length (i # rest)" using m(1) by simp
      from run 1 2 3 4 5 show ?thesis by blast
    qed
  next
    case False
    from Cons.IH [OF rest, of bs bw]
    obtain res where res: "search_windows F a al k rest (bs, bw) = Inr res"
      and alt: "((\<forall>j \<in> set rest. sc j \<le> bs) \<and> res = (bs, bw)) \<or>
      (\<exists>m < length rest. res = (sc (rest ! m), Some (py_slice al (rest ! m) (int (rest ! m) + k)))
          \<and> bs < sc (rest ! m)
          \<and> (\<forall>j < length rest. sc (rest ! j) \<le> sc (rest ! m))
          \<and> (\<forall>j < m. sc (rest ! j) < sc (rest ! m)))" by blast
    have run: "search_windows F a al k (i # rest) (bs, bw) = Inr res"
      using sci False res by simp
    from alt show ?thesis
    proof
      assume A: "(\<forall>j \<in> set rest. sc j \<le> bs) \<and> res = (bs, bw)"
      with False run show ?thesis by auto
    next
      assume "\<exists>m < length rest. res = (sc (rest ! m), Some (py_slice al (rest ! m) (int (rest ! m) + k)))
          \<and> bs < sc (rest ! m)
          \<and> (\<forall>j < length rest. sc (rest ! j) \<le> sc (rest ! m))
          \<and> (\<forall>j < m. sc (rest ! j) < sc (rest ! m))"
      then obtain m where m: "m < length rest"
        "res = (sc (rest ! m), Some (py_slice al (rest ! m) (int (rest ! m) + k)))"
        "bs < sc (rest ! m)" "\<forall>j < length rest. sc (rest ! j) \<le> sc (rest ! m)"
        "\<forall>j < m. sc (rest ! j) < sc (rest ! m)" by blast
      have 1: "\<forall>j < length (i # rest). sc ((i # rest) ! j) \<le> sc ((i # rest) ! Suc m)"
        using m False by (auto simp: nth_Cons split: nat.splits)
      have 2: "\<forall>j < Suc m. sc ((i # rest) ! j) < sc ((i # rest) ! Suc m)"
        using m False by (auto simp: nth_Cons split: nat.splits)
      have 3: "bs < sc ((i # rest) ! Suc m)" using m(3) by simp
      have 4: "res = (sc ((i # rest) ! Suc m), Some (py_slice al ((i # rest) ! Suc m) (int ((i # rest) ! Suc m) + k)))"
        using m(2) by simp
      have 5: "Suc m < length (i # rest)" using m(1) by simp
      from run 1 2 3 4 5 show ?thesis by blast
    qed
  qed
qed

lemma py_slice_window:
  assumes "1 \<le> k" "i + nat k \<le> length al"
  shows "py_slice al i (int i + k) = spec_window al k i"
proof -
  have "min (int i + k) (int (length al)) = int i + k" using assms by auto
  moreover have "nat (int i + k) = i + nat k" using assms by auto
  ultimately show ?thesis using assms
    by (simp add: py_slice_def spec_window_def Let_def drop_take)
qed

lemma spec_window_props:
  assumes "1 \<le> k" "i + nat k \<le> length al"
  shows "length (spec_window al k i) = nat k"
    and "spec_window al k i \<noteq> []"
    and "hd (spec_window al k i) = al ! i"
    and "last (spec_window al k i) = al ! (i + nat k - 1)"
proof -
  show len: "length (spec_window al k i) = nat k"
    using assms by (simp add: spec_window_def)
  then show ne: "spec_window al k i \<noteq> []" using assms by auto
  show "hd (spec_window al k i) = al ! i"
    using assms by (simp add: spec_window_def hd_drop_conv_nth)
  have "last (spec_window al k i) = spec_window al k i ! (nat k - 1)"
    using ne len by (simp add: last_conv_nth)
  also have "\<dots> = al ! (i + (nat k - 1))"
    using assms by (simp add: spec_window_def)
  finally show "last (spec_window al k i) = al ! (i + nat k - 1)"
    using assms by simp
qed

lemma window_score_spec:
  assumes "1 \<le> k" "i + nat k \<le> length al"
  shows "window_score F a (py_slice al i (int i + k)) = Inr (spec_window_score F a al k i)"
proof -
  have "real (nat k) = real_of_int k" using assms by simp
  then show ?thesis
    using spec_window_props(1,2) [OF assms] py_slice_window [OF assms]
    by (simp add: window_score_Inr spec_window_score_def)
qed

lemma search_all_windows:
  assumes "1 \<le> k" "k \<le> int (length al)"
  shows "\<exists>res. search_windows F a al k (py_range (int (length al) - k + 1)) (bs, bw) = Inr res \<and>
     (((\<forall>i. i + nat k \<le> length al \<longrightarrow> spec_window_score F a al k i \<le> bs) \<and> res = (bs, bw)) \<or>
      (\<exists>m. m + nat k \<le> length al
          \<and> res = (spec_window_score F a al k m, Some (spec_window al k m))
          \<and> bs < spec_window_score F a al k m
          \<and> (\<forall>j. j + nat k \<le> length al \<longrightarrow> spec_window_score F a al k j \<le> spec_window_score F a al k m)
          \<and> (\<forall>j < m. spec_window_score F a al k j < spec_window_score F a al k m)))"
proof -
  define N where "N = nat (int (length al) - k + 1)"
  have N: "\<And>i. i < N \<longleftrightarrow> i + nat k \<le> length al" using assms by (auto simp: N_def)
  have rng: "py_range (int (length al) - k + 1) = [0..<N]" by (simp add: py_range_def N_def)
  have sc: "\<forall>i \<in> set [0..<N]. window_score F a (py_slice al i (int i + k)) = Inr (spec_window_score F a al k i)"
    using window_score_spec [OF assms(1)] N by auto
  from search_windows_best [OF sc, of bs bw]
  obtain res where run: "search_windows F a al k [0..<N] (bs, bw) = Inr res"
    and alt: "((\<forall>i \<in> set [0..<N]. spec_window_score F a al k i \<le> bs) \<and> res = (bs, bw)) \<or>
      (\<exists>m < length [0..<N]. res = (spec_window_score F a al k ([0..<N] ! m), Some (py_slice al ([0..<N] ! m) (int ([0..<N] ! m) + k)))
          \<and> bs < spec_window_score F a al k ([0..<N] ! m)
          \<and> (\<forall>j < length [0..<N]. spec_window_score F a al k ([0..<N] ! j) \<le> spec_window_score F a al k ([0..<N] ! m))
          \<and> (\<forall>j < m. spec_window_score F a al k ([0..<N] ! j) < spec_window_score F a al k ([0..<N] ! m)))"
    by blast
  from alt show ?thesis
  proof
    assume "(\<forall>i \<in> set [0..<N]. spec_window_score F a al k i \<le> bs) \<and> res = (bs, bw)"
    then have "(\<forall>i. i + nat k \<le> length al \<longrightarrow> spec_window_score F a al k i \<le> bs) \<and> res = (bs, bw)"
      using N by auto
    with run rng show ?thesis by auto
  next
    assume "\<exists>m < length [0..<N]. res = (spec_window_score F a al k ([0..<N] ! m), Some (py_slice al ([0..<N] ! m) (int ([0..<N] ! m) + k)))
          \<and> bs < spec_window_score F a al k ([0..<N] ! m)
          \<and> (\<forall>j < length [0..<N]. spec_window_score F a al k ([0..<N] ! j) \<le> spec_window_score F a al k ([0..<N] ! m))
          \<and> (\<forall>j < m. spec_window_score F a al k ([0..<N] ! j) < spec_window_score F a al k ([0..<N] ! m))"
    then obtain m where m: "m < N"
      "res = (spec_window_score F a al k m, Some (py_slice al m (int m + k)))"
      "bs < spec_window_score F a al k m"
      "\<forall>j < N. spec_window_score F a al k j \<le> spec_window_score F a al k m"
      "\<forall>j < m. spec_window_score F a al k j < spec_window_score F a al k m"
      by auto
    have mk: "m + nat k \<le> length al" using m(1) N by simp
    have 1: "res = (spec_window_score F a al k m, Some (spec_window al k m))"
      using m(2) py_slice_window [OF assms(1) mk] by simp
    have 2: "\<forall>j. j + nat k \<le> length al \<longrightarrow> spec_window_score F a al k j \<le> spec_window_score F a al k m"
      using m(4) N by simp
    from run rng mk 1 m(3) 2 m(5) show ?thesis by auto
  qed
qed

lemma search_nonpositive_slots:
  assumes "k \<le> 0"
  shows "search_windows F a al k (py_range (int (length al) - k + 1)) best = Inl ZeroDivisionError"
proof -
  define i where "i = nat (- k)"
  have "i \<in> set (py_range (int (length al) - k + 1))"
    using assms by (auto simp: py_range_def i_def)
  moreover have "int i + k = 0" using assms by (simp add: i_def)
  then have "py_slice al i (int i + k) = []" by (simp add: py_slice_def)
  ultimately show ?thesis by (rule search_windows_empty_slice)
qed

lemma search_too_many_slots:
  assumes "int (length al) < k"
  shows "search_windows F a al k (py_range (int (length al) - k + 1)) best = Inr best"
  using assms by (simp add: py_range_def)

lemma align_data_Nil: "align_data [] cs = []" "align_data ps [] = []"
  by (simp_all add: align_data_def List.map_filter_def)

lemma find_optimal_window_unfold:
  assumes "align_data ps cs \<noteq> []"
  shows "find_optimal_window F a ps cs d bt =
     (case search_windows F a (align_data ps cs) (py_int (d * 2))
             (py_range (int (length (align_data ps cs)) - py_int (d * 2) + 1)) (- 1, None) of
        Inl e \<Rightarrow> Inl e
      | Inr (best_score, best_window) \<Rightarrow>
          (case best_window of
             None \<Rightarrow> Inl (ValueError ''No valid charging window found'')
           | Some bw \<Rightarrow>
               if bw = [] then Inl (ValueError ''No valid charging window found'')
               else Inr (window_metrics F a (align_data ps cs) d bt (py_int (d * 2)) best_score bw)))"
proof -
  from assms have "ps \<noteq> []" "cs \<noteq> []" using align_data_Nil by auto
  with assms show ?thesis by (simp add: find_optimal_window_def Let_def)
qed

lemma find_optimal_window_Inr:
  assumes ok: "find_optimal_window F a ps cs d bt = Inr w"
  defines "al \<equiv> align_data ps cs" and "k \<equiv> py_int (d * 2)"
  shows "1 \<le> k \<and> k \<le> int (length al) \<and>
     (\<exists>m. m + nat k \<le> length al
        \<and> w = window_metrics F a al d bt k (spec_window_score F a al k m) (spec_window al k m)
        \<and> - 1 < spec_window_score F a al k m
        \<and> (\<forall>j. j + nat k \<le> length al \<longrightarrow> spec_window_score F a al k j \<le> spec_window_score F a al k m)
        \<and> (\<forall>j < m. spec_window_score F a al k j < spec_window_score F a al k m))"
proof -
  have ne: "al \<noteq> []"
    using ok unfolding al_def by (auto simp: find_optimal_window_def Let_def split: if_splits)
  note unf = find_optimal_window_unfold [of ps cs F a d bt, folded al_def k_def, OF ne]
  have k1: "1 \<le> k"
  proof (rule ccontr)
    assume "\<not> 1 \<le> k"
    then have "k \<le> 0" by simp
    from search_nonpositive_slots [OF this, of F a al "(- 1, None)"] ok unf show False by simp
  qed
  have kn: "k \<le> int (length al)"
  proof (rule ccontr)
    assume "\<not> k \<le> int (length al)"
    then have "int (length al) < k" by simp
    from search_too_many_slots [OF this, of F a "(- 1, None)"] ok unf show False by simp
  qed
  from search_all_windows [OF k1 kn, of F a "- 1" None]
  obtain res where run: "search_windows F a al k (py_range (int (length al) - k + 1)) (- 1, None) = Inr res"
    and alt: "((\<forall>i. i + nat k \<le> length al \<longrightarrow> spec_window_score F a al k i \<le> - 1) \<and> res = (- 1, None)) \<or>
      (\<exists>m. m + nat k \<le> length al
          \<and> res = (spec_window_score F a al k m, Some (spec_window al k m))
          \<and> - 1 < spec_window_score F a al k m
          \<and> (\<forall>j. j + nat k \<le> length al \<longrightarrow> spec_window_score F a al k j \<le> spec_window_score F a al k m)
          \<and> (\<forall>j < m. spec_window_score F a al k j < spec_window_score F a al k m))"
    by blast
  from alt have "\<exists>m. m + nat k \<le> length al
        \<and> w = window_metrics F a al d bt k (spec_window_score F a al k m) (spec_window al k m)
        \<and> - 1 < spec_window_score F a al k m
        \<and> (\<forall>j. j + nat k \<le> length al \<longrightarrow> spec_window_score F a al k j \<le> spec_window_score F a al k m)
        \<and> (\<forall>j < m. spec_window_score F a al k j < spec_window_score F a al k m)"
  proof
    assume "(\<forall>i. i + nat k \<le> length al \<longrightarrow> spec_window_score F a al k i \<le> - 1) \<and> res = (- 1, None)"
    with run ok unf show ?thesis by simp
  next
    assume "\<exists>m. m + nat k \<le> length al
          \<and> res = (spec_window_score F a al k m, Some (spec_window al k m))
          \<and> - 1 < spec_window_score F a al k m
          \<and> (\<forall>j. j + nat k \<le> length al \<longrightarrow> spec_window_score F a al k j \<le> spec_window_score F a al k m)
          \<and> (\<forall>j < m. spec_window_score F a al k j < spec_window_score F a al k m)"
    then obtain m where m: "m + nat k \<le> length al"
      "res = (spec_window_score F a al k m, Some (spec_window al k m))"
      "- 1 < spec_window_score F a al k m"
      "\<forall>j. j + nat k \<le> length al \<longrightarrow> spec_window_score F a al k j \<le> spec_window_score F a al k m"
      "\<forall>j < m. spec_window_score F a al k j < spec_window_score F a al k m" by blast
    have "spec_window al k m \<noteq> []" using spec_window_props(2) [OF k1 m(1)] .
    with run m(2) ok unf
    have "w = window_metrics F a al d bt k (spec_window_score F a al k m) (spec_window al k m)"
      by simp
    with m show ?thesis by blast
  qed
  with k1 kn show ?thesis by blast
qed

lemma find_optimal_window_returns:
  assumes ne: "align_data ps cs = al" and k: "py_int (d * 2) = k"
    and k1: "1 \<le> k" and kn: "k \<le> int (length al)"
    and pos: "\<forall>i. i + nat k \<le> length al \<longrightarrow> - 1 < spec_window_score F a al k i"
  shows "\<exists>w. find_optimal_window F a ps cs d bt = Inr w"
proof -
  have al: "align_data ps cs \<noteq> []" using ne k1 kn by auto
  note unf = find_optimal_window_unfold [of ps cs F a d bt, OF al, unfolded ne k]
  from search_all_windows [OF k1 kn, of F a "- 1" None]
  obtain res where run: "search_windows F a al k (py_range (int (length al) - k + 1)) (- 1, None) = Inr res"
    and alt: "((\<forall>i. i + nat k \<le> length al \<longrightarrow> spec_window_score F a al k i \<le> - 1) \<and> res = (- 1, None)) \<or>
      (\<exists>m. m + nat k \<le> length al
          \<and> res = (spec_window_score F a al k m, Some (spec_window al k m)))"
    by blast
  have "0 + nat k \<le> length al" using k1 kn by simp
  with pos have "- 1 < spec_window_score F a al k 0" by blast
  moreover have "0 + nat k \<le> length al" using k1 kn by simp
  ultimately have "\<not> (\<forall>i. i + nat k \<le> length al \<longrightarrow> spec_window_score F a al k i \<le> - 1)"
    by (metis not_less)
  with alt obtain m where m: "m + nat k \<le> length al"
    "res = (spec_window_score F a al k m, Some (spec_window al k m))" by blast
  have "spec_window al k m \<noteq> []" using spec_window_props(2) [OF k1 m(1)] .
  with run m(2) unf show ?thesis by simp
qed

lemma window_metrics_fields:
  assumes "1 \<le> k" "m + nat k \<le> length al"
  shows "start (window_metrics F a al d bt k sc (spec_window al k m)) = time (al ! m)"
    and "end_time (window_metrics F a al d bt k sc (spec_window al k m))
           = time (al ! (m + nat k - 1)) + timedelta_minutes 30"
    and "avg_price (window_metrics F a al d bt k sc (spec_window al k m))
           = fdiv F (fsum F (map price (spec_window al k m))) (real_of_int k)"
    and "opportunity_score (window_metrics F a al d bt k sc (spec_window al k m)) = sc"
    and "total_cost (window_metrics F a al d bt k sc (spec_window al k m))
           = avg_price (window_metrics F a al d bt k sc (spec_window al k m)) * (d * (74 / 10)) / 100"
proof -
  have "real (nat k) = real_of_int k" using assms by simp
  then show "start (window_metrics F a al d bt k sc (spec_window al k m)) = time (al ! m)"
    and "end_time (window_metrics F a al d bt k sc (spec_window al k m))
           = time (al ! (m + nat k - 1)) + timedelta_minutes 30"
    and "avg_price (window_metrics F a al d bt k sc (spec_window al k m))
           = fdiv F (fsum F (map price (spec_window al k m))) (real_of_int k)"
    and "opportunity_score (window_metrics F a al d bt k sc (spec_window al k m)) = sc"
    and "total_cost (window_metrics F a al d bt k sc (spec_window al k m))
           = avg_price (window_metrics F a al d bt k sc (spec_window al k m)) * (d * (74 / 10)) / 100"
    using spec_window_props [OF assms]
    by (simp_all add: window_metrics_def Let_def)
qed

lemma demo_aligned: "align_data (half_hourly_prices [20, 8, 8]) (half_hourly_carbon [200, 90, 90]) =
   [\<lparr>time = 0, price = 20, carbon = 200\<rparr>, \<lparr>time = 1800000000, price = 8, carbon = 90\<rparr>,
    \<lparr>time = 3600000000, price = 8, carbon = 90\<rparr>]"
  by (simp add: align_data_def half_hourly_prices_def half_hourly_carbon_def
      timedelta_minutes_def List.map_filter_def)

lemma inverted_no_window: "find_optimal_window exact_ops inverted_analyzer (half_hourly_prices [30]) (half_hourly_carbon [50]) (1 / 2) None
   = Inl (ValueError ''No valid charging window found'')"
  by (simp add: find_optimal_window_def align_data_def half_hourly_prices_def half_hourly_carbon_def
      timedelta_minutes_def List.map_filter_def py_int_def py_range_def py_slice_def
      window_score_def div_len_def computed_opportunity_score_def exact_ops_def
      calculate_price_score_def
      calculate_carbon_score_def inverted_analyzer_def)

lemmas eval_defs = find_optimal_window_def align_data_def half_hourly_prices_def
  half_hourly_carbon_def timedelta_minutes_def List.map_filter_def py_int_def py_range_def
  py_slice_def window_score_def div_len_def computed_opportunity_score_def exact_ops_def
  calculate_price_score_def calculate_carbon_score_def window_metrics_def
  classify_opportunity_def determine_reason_def default_analyzer_def

lemma computed_score_nonneg:
  assumes "sign_preserving F" "0 \<le> price_weight a" "0 \<le> carbon_weight a"
  shows "0 \<le> computed_opportunity_score F a p c"
proof -
  have "0 \<le> calculate_price_score a p" using price_score_bounds [of a p] by simp
  with assms have 1: "0 \<le> fmul F (price_weight a) (calculate_price_score a p)"
    by (simp add: sign_preserving_def)
  have "0 \<le> calculate_carbon_score a c" using carbon_score_bounds [of a c] by simp
  with assms have 2: "0 \<le> fmul F (carbon_weight a) (calculate_carbon_score a c)"
    by (simp add: sign_preserving_def)
  from 1 2 assms(1) show ?thesis
    by (simp add: computed_opportunity_score_def sign_preserving_def)
qed

lemma computed_opportunity_score_exact:
  "computed_opportunity_score exact_ops a p c = calculate_opportunity_score a p c"
  by (simp add: computed_opportunity_score_def calculate_opportunity_score_def exact_ops_def)

lemma sign_preserving_exact: "sign_preserving exact_ops"
  by (simp add: sign_preserving_def exact_ops_def)

text \<open>
  C1 (as the code has it).  For an analyzer constructed with non-negative weights, a
  non-empty aligned series and \<open>slots_needed \<ge> 1\<close> with at least that many aligned slots,
  \<open>find_optimal_window\<close> returns the window of \<open>slots_needed\<close> consecutive aligned slots
  whose opportunity score, as the code computes it in floats from the window's mean price
  and mean carbon, is maximal, and among the windows of maximal score the one with the
  earliest start index.  So the returned window starts at an index \<open>s\<close> exactly when the
  window at \<open>s\<close> scores at least as high as every window and strictly higher than every
  earlier one.  This holds however the float operations round, as long as a sum or a
  product of non-negative floats is not negative.
\<close>

theorem find_optimal_window_first_maximum:
  assumes init: "Analyzer_init pw cw pe pg pa ce cg ca = Inr a"
    and pw: "0 \<le> pw" and cw: "0 \<le> cw"
    and al: "align_data ps cs = al" and k: "py_int (d * 2) = k"
    and k1: "1 \<le> k" and kn: "k \<le> int (length al)"
    and F: "sign_preserving F"
  shows "\<exists>w m. find_optimal_window F a ps cs d bt = Inr w
     \<and> m + nat k \<le> length al
     \<and> start w = time (al ! m)
     \<and> end_time w = time (al ! (m + nat k - 1)) + timedelta_minutes 30
     \<and> avg_price w = fdiv F (fsum F (map price (spec_window al k m))) (real_of_int k)
     \<and> opportunity_score w = spec_window_score F a al k m
     \<and> (\<forall>j. j + nat k \<le> length al \<longrightarrow> spec_window_score F a al k j \<le> spec_window_score F a al k m)
     \<and> (\<forall>j < m. spec_window_score F a al k j < spec_window_score F a al k m)
     \<and> (\<forall>s. s + nat k \<le> length al
            \<and> (\<forall>j < s. spec_window_score F a al k j < spec_window_score F a al k s)
            \<and> (\<forall>j. j + nat k \<le> length al \<longrightarrow> spec_window_score F a al k j \<le> spec_window_score F a al k s)
          \<longrightarrow> m = s)"
proof -
  from init pw cw have wp: "0 \<le> price_weight a" and wc: "0 \<le> carbon_weight a"
    by (auto simp: Analyzer_init_def split: if_splits)
  have pos: "\<forall>i. i + nat k \<le> length al \<longrightarrow> - 1 < spec_window_score F a al k i"
  proof (intro allI impI)
    fix i
    have "0 \<le> spec_window_score F a al k i"
      unfolding spec_window_score_def by (rule computed_score_nonneg [OF F wp wc])
    then show "- 1 < spec_window_score F a al k i" by simp
  qed
  from find_optimal_window_returns [OF al k k1 kn pos]
  obtain w where w: "find_optimal_window F a ps cs d bt = Inr w" by blast
  from find_optimal_window_Inr [OF w, unfolded al k]
  obtain m where m: "m + nat k \<le> length al"
    "w = window_metrics F a al d bt k (spec_window_score F a al k m) (spec_window al k m)"
    "\<forall>j. j + nat k \<le> length al \<longrightarrow> spec_window_score F a al k j \<le> spec_window_score F a al k m"
    "\<forall>j < m. spec_window_score F a al k j < spec_window_score F a al k m" by blast
  note f = window_metrics_fields [OF k1 m(1), of F a d bt "spec_window_score F a al k m", folded m(2)]
  have uniq: "\<forall>s. s + nat k \<le> length al
            \<and> (\<forall>j < s. spec_window_score F a al k j < spec_window_score F a al k s)
            \<and> (\<forall>j. j + nat k \<le> length al \<longrightarrow> spec_window_score F a al k j \<le> spec_window_score F a al k s)
          \<longrightarrow> m = s"
  proof (intro allI impI)
    fix s
    assume s: "s + nat k \<le> length al
       \<and> (\<forall>j < s. spec_window_score F a al k j < spec_window_score F a al k s)
       \<and> (\<forall>j. j + nat k \<le> length al \<longrightarrow> spec_window_score F a al k j \<le> spec_window_score F a al k s)"
    show "m = s"
    proof (rule ccontr)
      assume "m \<noteq> s"
      then consider "m < s" | "s < m" by linarith
      then show False
      proof cases
        case 1
        with s have "spec_window_score F a al k m < spec_window_score F a al k s" by blast
        moreover from s m(3) have "spec_window_score F a al k s \<le> spec_window_score F a al k m" by blast
        ultimately show False by simp
      next
        case 2
        with m(4) have "spec_window_score F a al k s < spec_window_score F a al k m" by blast
        moreover from s m(1) have "spec_window_score F a al k m \<le> spec_window_score F a al k s" by blast
        ultimately show False by simp
      qed
    qed
  qed
  from w m(1) f(1) f(2) f(3) f(4) m(3) m(4) uniq show ?thesis by blast
qed

lemma dip_prices_list: "dip_prices =
   [8, 8, 8, 8, 5, 5, 5, 5, 5, 5, 5, 5,
    8, 8, 8, 8, 8, 8, 8, 8, 8, 8, 8, 8, 8, 8, 8, 8, 8, 8,
    8, 8, 8, 8, 8, 8, 8, 8, 8, 8, 8, 8, 8, 8, 8, 8, 8, 8]"
  by (simp add: dip_prices_def eval_nat_numeral)

lemma dip_carbon_list: "dip_carbon =
   [80, 80, 80, 80, 50, 50, 50, 50, 50, 50, 50, 50,
    80, 80, 80, 80, 80, 80, 80, 80, 80, 80, 80, 80, 80, 80, 80, 80, 80, 80,
    80, 80, 80, 80, 80, 80, 80, 80, 80, 80, 80, 80, 80, 80, 80, 80, 80, 80]"
  by (simp add: dip_carbon_def eval_nat_numeral)

lemma dip_aligned:
  "align_data (half_hourly_prices dip_prices) (half_hourly_carbon dip_carbon) =
     map (\<lambda>(i, p, c). \<lparr>time = timedelta_minutes (30 * int i), price = p, carbon = c\<rparr>)
       (enumerate 0 (zip dip_prices dip_carbon))"
  unfolding dip_prices_list dip_carbon_list
  by (simp add: align_data_def half_hourly_prices_def half_hourly_carbon_def
      timedelta_minutes_def List.map_filter_def)

lemma cheap_window_score:
  assumes slots: "\<forall>s \<in> set al. price s \<le> 10 \<and> carbon s \<le> 100"
    and k1: "1 \<le> k" and jk: "j + nat k \<le> length al"
  shows "spec_window_score exact_ops default_analyzer al k j = 100"
proof -
  let ?w = "spec_window al k j"
  have sub: "set ?w \<subseteq> set al"
    unfolding spec_window_def by (meson set_drop_subset set_take_subset subset_trans)
  have len: "real (length ?w) = real_of_int k"
    using spec_window_props(1) [OF k1 jk] k1 by simp
  have "sum_list (map price ?w) \<le> (\<Sum>s\<leftarrow>?w. 10)"
    using slots sub by (intro sum_list_mono) auto
  then have p: "sum_list (map price ?w) \<le> 10 * real_of_int k"
    using len by (simp add: sum_list_triv)
  have "sum_list (map carbon ?w) \<le> (\<Sum>s\<leftarrow>?w. 100)"
    using slots sub by (intro sum_list_mono) auto
  then have "sum_list (map carbon ?w) \<le> 100 * int (length ?w)"
    by (simp add: sum_list_triv)
  then have "real_of_int (sum_list (map carbon ?w)) \<le> real_of_int (100 * int (length ?w))"
    by (simp only: of_int_le_iff)
  then have c: "real_of_int (sum_list (map carbon ?w)) \<le> 100 * real_of_int k"
    using len by simp
  have kpos: "0 < real_of_int k" using k1 by simp
  have p': "sum_list (map price ?w) / real_of_int k \<le> 10"
    using p kpos by (simp add: pos_divide_le_eq)
  have c': "real_of_int (sum_list (map carbon ?w)) / real_of_int k \<le> 100"
    using c kpos by (simp add: pos_divide_le_eq)
  show ?thesis
    using p' c'
    by (simp add: spec_window_score_def computed_opportunity_score_def exact_ops_def
        calculate_price_score_def calculate_carbon_score_def default_analyzer_def)
qed

theorem find_optimal_window_first_maximum_witness:
  "Analyzer_init (6 / 10) (4 / 10) 10 15 20 100 150 200 = Inr default_analyzer
   \<and> align_data (half_hourly_prices [20, 8, 8]) (half_hourly_carbon [200, 90, 90]) =
        [\<lparr>time = 0, price = 20, carbon = 200\<rparr>, \<lparr>time = 1800000000, price = 8, carbon = 90\<rparr>,
         \<lparr>time = 3600000000, price = 8, carbon = 90\<rparr>]
   \<and> py_int (1 * 2) = 2
   \<and> sign_preserving exact_ops
   \<and> (\<exists>w. find_optimal_window exact_ops default_analyzer (half_hourly_prices [20, 8, 8])
              (half_hourly_carbon [200, 90, 90]) 1 None = Inr w
          \<and> start w = 1800000000 \<and> end_time w = 3600000000 + timedelta_minutes 30
          \<and> opportunity_score w = 100)"
proof -
  let ?al = "[\<lparr>time = 0, price = 20, carbon = 200\<rparr>, \<lparr>time = 1800000000, price = 8, carbon = 90\<rparr>,
         \<lparr>time = 3600000000, price = 8, carbon = 90\<rparr>]"
  have init: "Analyzer_init (6 / 10) (4 / 10) 10 15 20 100 150 200 = Inr default_analyzer"
    by (simp add: Analyzer_init_def default_analyzer_def)
  have k: "py_int (1 * 2) = 2" by (simp add: py_int_def)
  have s0: "spec_window_score exact_ops default_analyzer ?al 2 0 = 75"
    by (simp add: spec_window_score_def spec_window_def computed_opportunity_score_def
        exact_ops_def
        calculate_price_score_def calculate_carbon_score_def default_analyzer_def)
  have s1: "spec_window_score exact_ops default_analyzer ?al 2 1 = 100"
    by (simp add: spec_window_score_def spec_window_def computed_opportunity_score_def
        exact_ops_def
        calculate_price_score_def calculate_carbon_score_def default_analyzer_def)
  from find_optimal_window_first_maximum [OF init _ _ demo_aligned k _ _ sign_preserving_exact, of None]
  obtain w m where w: "find_optimal_window exact_ops default_analyzer (half_hourly_prices [20, 8, 8])
              (half_hourly_carbon [200, 90, 90]) 1 None = Inr w"
    and m: "m + nat 2 \<le> length ?al" "start w = time (?al ! m)"
      "end_time w = time (?al ! (m + nat 2 - 1)) + timedelta_minutes 30"
      "opportunity_score w = spec_window_score exact_ops default_analyzer ?al 2 m"
      "\<forall>j. j + nat 2 \<le> length ?al \<longrightarrow> spec_window_score exact_ops default_analyzer ?al 2 j \<le> spec_window_score exact_ops default_analyzer ?al 2 m"
    by auto
  from m(1) have "m = 0 \<or> m = 1" by auto
  moreover have "m \<noteq> 0"
  proof
    assume "m = 0"
    with m(5) [rule_format, of 1] s0 s1 show False by simp
  qed
  ultimately have "m = 1" by simp
  with m s1 have "start w = 1800000000 \<and> end_time w = 3600000000 + timedelta_minutes 30
          \<and> opportunity_score w = 100" by simp
  with w init demo_aligned k sign_preserving_exact show ?thesis by blast
qed

text \<open>
  The claim as stated fails twice.  A stretch that is uniformly cheaper and cleaner need
  not score higher: in the 48-slot day above every window scores 100 and the search
  returns the window at index 0, not the one at index 4.  And with the weights 2 and -1,
  which the constructor accepts, a slot scoring -50 never beats the initial best score of
  -1, so no window is returned at all.
\<close>

theorem find_optimal_window_first_maximum_counterexample:
  "\<not> isl (find_optimal_window exact_ops default_analyzer (half_hourly_prices dip_prices)
            (half_hourly_carbon dip_carbon) 4 None)
   \<and> start (projr (find_optimal_window exact_ops default_analyzer (half_hourly_prices dip_prices)
            (half_hourly_carbon dip_carbon) 4 None)) = timedelta_minutes (30 * 0)
   \<and> timedelta_minutes (30 * 0) \<noteq> timedelta_minutes (30 * 4)
   \<and> Analyzer_init 2 (- 1) 10 15 20 100 150 200 = Inr inverted_analyzer
   \<and> find_optimal_window exact_ops inverted_analyzer (half_hourly_prices [30]) (half_hourly_carbon [50])
        (1 / 2) None = Inl (ValueError ''No valid charging window found'')"
proof -
  define al where "al = align_data (half_hourly_prices dip_prices) (half_hourly_carbon dip_carbon)"
  have al: "align_data (half_hourly_prices dip_prices) (half_hourly_carbon dip_carbon) = al"
    by (simp add: al_def)
  have len: "length al = 48"
    unfolding al_def dip_aligned by (simp add: dip_prices_def dip_carbon_def)
  have slots: "\<forall>s \<in> set al. price s \<le> 10 \<and> carbon s \<le> 100"
    unfolding al_def dip_aligned
    by (auto simp: dip_prices_def dip_carbon_def in_set_enumerate_eq in_set_zip nth_append
        split: if_splits)
  have t0: "time (al ! 0) = 0"
    unfolding al_def dip_aligned
    by (simp add: dip_prices_def dip_carbon_def nth_enumerate_eq timedelta_minutes_def
        case_prod_beta)
  have k: "py_int (4 * 2) = 8" by (simp add: py_int_def)
  have k1: "(1::int) \<le> 8" and kn: "(8::int) \<le> int (length al)" using len by simp_all
  have sc: "\<And>j. j + nat 8 \<le> length al \<Longrightarrow> spec_window_score exact_ops default_analyzer al 8 j = 100"
    using cheap_window_score [OF slots k1] by blast
  have pos: "\<forall>i. i + nat 8 \<le> length al \<longrightarrow> - 1 < spec_window_score exact_ops default_analyzer al 8 i"
    using sc by simp
  from find_optimal_window_returns [OF al k k1 kn pos, of None]
  obtain w where w: "find_optimal_window exact_ops default_analyzer (half_hourly_prices dip_prices)
            (half_hourly_carbon dip_carbon) 4 None = Inr w" by blast
  from find_optimal_window_Inr [OF w, unfolded al k]
  obtain m where m: "m + nat 8 \<le> length al"
    "w = window_metrics exact_ops default_analyzer al 4 None 8 (spec_window_score exact_ops default_analyzer al 8 m)
           (spec_window al 8 m)"
    "\<forall>j < m. spec_window_score exact_ops default_analyzer al 8 j < spec_window_score exact_ops default_analyzer al 8 m"
    by blast
  have "m = 0"
  proof (rule ccontr)
    assume "m \<noteq> 0"
    then have "0 < m" by simp
    with m(3) have "spec_window_score exact_ops default_analyzer al 8 0 < spec_window_score exact_ops default_analyzer al 8 m"
      by blast
    moreover have "spec_window_score exact_ops default_analyzer al 8 0 = 100" using sc [of 0] len by simp
    moreover have "spec_window_score exact_ops default_analyzer al 8 m = 100" using sc [OF m(1)] .
    ultimately show False by simp
  qed
  with window_metrics_fields(1) [OF k1 m(1), of exact_ops default_analyzer 4 None
      "spec_window_score exact_ops default_analyzer al 8 m", folded m(2)] t0
  have "start w = 0" by simp
  moreover have "Analyzer_init 2 (- 1) 10 15 20 100 150 200 = Inr inverted_analyzer"
    by (simp add: Analyzer_init_def inverted_analyzer_def)
  moreover note inverted_no_window
  ultimately show ?thesis using w by (simp add: timedelta_minutes_def)
qed

lemma regular_spacing:
  assumes "\<forall>j. j + 1 < length al \<longrightarrow> time (al ! (j + 1)) = time (al ! j) + timedelta_minutes 30"
    and "m + n < length al"
  shows "time (al ! (m + n)) = time (al ! m) + timedelta_minutes (30 * int n)"
  using assms(2)
proof (induction n)
  case 0
  then show ?case by (simp add: timedelta_minutes_def)
next
  case (Suc n)
  then have "time (al ! (m + n)) = time (al ! m) + timedelta_minutes (30 * int n)" by simp
  moreover from Suc.prems assms(1) have "time (al ! (m + n + 1)) = time (al ! (m + n)) + timedelta_minutes 30"
    by simp
  ultimately show ?case by (simp add: timedelta_minutes_def algebra_simps)
qed

lemma py_int_ge_1: "1 \<le> py_int x \<Longrightarrow> 1 \<le> x \<and> py_int x = \<lfloor>x\<rfloor>"
  by (auto simp: py_int_def split: if_splits)

text \<open>
  C2 (as the code has it).  The window size is \<open>int(d \<times> 2)\<close>, the duration in half hours
  truncated, not rounded.  A successful call has at least one slot and at most as many as
  the aligned series; the window starts at the time of its first slot and ends 30 minutes
  after the time of its last slot.  When consecutive aligned slots are 30 minutes apart,
  end minus start is the window size times 30 minutes.
\<close>

theorem window_length:
  assumes ok: "find_optimal_window F a ps cs d bt = Inr w"
  shows "1 \<le> py_int (d * 2)
     \<and> py_int (d * 2) = \<lfloor>d * 2\<rfloor>
     \<and> py_int (d * 2) \<le> int (length (align_data ps cs))
     \<and> (\<exists>m. m + nat (py_int (d * 2)) \<le> length (align_data ps cs)
            \<and> start w = time (align_data ps cs ! m)
            \<and> end_time w = time (align_data ps cs ! (m + nat (py_int (d * 2)) - 1))
                             + timedelta_minutes 30)
     \<and> ((\<forall>j. j + 1 < length (align_data ps cs) \<longrightarrow>
              time (align_data ps cs ! (j + 1)) = time (align_data ps cs ! j) + timedelta_minutes 30)
          \<longrightarrow> end_time w - start w = timedelta_minutes (30 * py_int (d * 2)))"
proof -
  define al where "al = align_data ps cs"
  define k where "k = py_int (d * 2)"
  from find_optimal_window_Inr [OF ok, folded al_def k_def]
  obtain m where k1: "1 \<le> k" and kn: "k \<le> int (length al)" and m: "m + nat k \<le> length al"
    and w: "w = window_metrics F a al d bt k (spec_window_score F a al k m) (spec_window al k m)"
    by blast
  note f = window_metrics_fields(1,2) [OF k1 m, of F a d bt "spec_window_score F a al k m", folded w]
  have fl: "k = \<lfloor>d * 2\<rfloor>" using py_int_ge_1 [of "d * 2"] k1 by (simp add: k_def)
  have reg: "end_time w - start w = timedelta_minutes (30 * k)"
    if r: "\<forall>j. j + 1 < length al \<longrightarrow> time (al ! (j + 1)) = time (al ! j) + timedelta_minutes 30"
  proof -
    have "m + (nat k - 1) < length al" using m k1 by auto
    from regular_spacing [OF r this]
    have "time (al ! (m + nat k - 1)) = time (al ! m) + timedelta_minutes (30 * int (nat k - 1))"
      using k1 by simp
    moreover have "int (nat k - 1) = k - 1" using k1 by auto
    ultimately show ?thesis using f by (simp add: timedelta_minutes_def algebra_simps)
  qed
  from k1 fl kn m f reg show ?thesis unfolding al_def k_def by blast
qed

theorem window_length_witness:
  "find_optimal_window exact_ops default_analyzer (half_hourly_prices [20, 8, 8])
       (half_hourly_carbon [200, 90, 90]) 1 None
     = Inr \<lparr>start = 1800000000, end_time = 5400000000, avg_price = 8, avg_carbon = 90,
            total_cost = 74 / 125, total_carbon = 666, opportunity_score = 100,
            rating = EXCELLENT, reason = ''both'', savings_vs_baseline = 37 / 125\<rparr>
   \<and> (5400000000::int) - 1800000000 = timedelta_minutes (30 * py_int (1 * 2))"
proof -
  have r: "find_optimal_window exact_ops default_analyzer (half_hourly_prices [20, 8, 8])
       (half_hourly_carbon [200, 90, 90]) 1 None
     = Inr \<lparr>start = 1800000000, end_time = 5400000000, avg_price = 8, avg_carbon = 90,
            total_cost = 74 / 125, total_carbon = 666, opportunity_score = 100,
            rating = EXCELLENT, reason = ''both'', savings_vs_baseline = 37 / 125\<rparr>"
    by (simp add: eval_defs upt_rec)
  have sp: "\<forall>j. j + 1 < length (align_data (half_hourly_prices [20, 8, 8]) (half_hourly_carbon [200, 90, 90])) \<longrightarrow>
     time (align_data (half_hourly_prices [20, 8, 8]) (half_hourly_carbon [200, 90, 90]) ! (j + 1))
       = time (align_data (half_hourly_prices [20, 8, 8]) (half_hourly_carbon [200, 90, 90]) ! j)
           + timedelta_minutes 30"
    unfolding demo_aligned by (auto simp: timedelta_minutes_def less_Suc_eq nth_Cons split: nat.splits)
  from window_length [OF r] sp r show ?thesis by (simp add: timedelta_minutes_def py_int_def)
qed

text \<open>
  The claim as stated fails.  For 0.9 hours the code takes \<open>int(1.8) = 1\<close> slot where
  \<open>round(1.8) = 2\<close>, and the window lasts 30 minutes, not 60.  For two aligned slots an
  hour apart and a one-hour charge, the window lasts 90 minutes, not 60.
\<close>

theorem window_length_counterexample:
  "py_int (9 / 10 * 2) = 1 \<and> py_round (9 / 10 * 2) = 2
   \<and> find_optimal_window exact_ops default_analyzer (half_hourly_prices [8, 8])
        (half_hourly_carbon [90, 90]) (9 / 10) None
      = Inr \<lparr>start = 0, end_time = timedelta_minutes 30, avg_price = 8, avg_carbon = 90,
             total_cost = 333 / 625, total_carbon = 599, opportunity_score = 100,
             rating = EXCELLENT, reason = ''both'', savings_vs_baseline = 333 / 1250\<rparr>
   \<and> timedelta_minutes 30 - 0 \<noteq> timedelta_minutes (30 * py_round (9 / 10 * 2))
   \<and> find_optimal_window exact_ops default_analyzer
        [\<lparr>ps_time = 0, ps_price = 8, ps_source = ''octopus''\<rparr>,
         \<lparr>ps_time = timedelta_minutes 60, ps_price = 8, ps_source = ''octopus''\<rparr>]
        [\<lparr>cs_time = 0, cs_intensity = 90\<rparr>, \<lparr>cs_time = timedelta_minutes 60, cs_intensity = 90\<rparr>]
        1 None
      = Inr \<lparr>start = 0, end_time = timedelta_minutes 90, avg_price = 8, avg_carbon = 90,
             total_cost = 74 / 125, total_carbon = 666, opportunity_score = 100,
             rating = EXCELLENT, reason = ''both'', savings_vs_baseline = 37 / 125\<rparr>
   \<and> timedelta_minutes 90 - 0 \<noteq> timedelta_minutes (30 * py_round (1 * 2))"
  by (simp add: eval_defs upt_rec py_round_def)

text \<open>
  C8.  For a window returned by \<open>find_optimal_window\<close> and an amount of energy \<open>kwh\<close> to
  charge, a positive number: a negative average price gives a negative total cost and the
  positive earnings estimate \<open>|avg_price| \<times> kwh / 100\<close>; a non-negative average price gives
  no estimate.
\<close>

theorem negative_price_earnings:
  assumes ok: "find_optimal_window F a ps cs d bt = Inr w" and kwh: "0 < kwh"
  shows "(avg_price w < 0 \<longrightarrow>
            total_cost w < 0
          \<and> get_earnings_estimate w kwh = Some (\<bar>avg_price w\<bar> * kwh / 100)
          \<and> 0 < \<bar>avg_price w\<bar> * kwh / 100)
       \<and> (0 \<le> avg_price w \<longrightarrow> get_earnings_estimate w kwh = None)"
proof -
  define al where "al = align_data ps cs"
  define k where "k = py_int (d * 2)"
  from find_optimal_window_Inr [OF ok, folded al_def k_def]
  obtain m where k1: "1 \<le> k" and m: "m + nat k \<le> length al"
    and w: "w = window_metrics F a al d bt k (spec_window_score F a al k m) (spec_window al k m)"
    by blast
  have cost: "total_cost w = avg_price w * (d * (74 / 10)) / 100"
    using window_metrics_fields(5) [OF k1 m, of F a d bt "spec_window_score F a al k m", folded w] .
  have d: "0 < d" using py_int_ge_1 [of "d * 2"] k1 by (simp add: k_def)
  have neg: "total_cost w < 0" if "avg_price w < 0"
  proof -
    have "0 < d * (74 / 10)" using d by simp
    with that have "avg_price w * (d * (74 / 10)) < 0" by (rule mult_neg_pos)
    then have "avg_price w * (d * (74 / 10)) / 100 < 0" by (rule divide_neg_pos) simp
    then show ?thesis unfolding cost .
  qed
  have est: "get_earnings_estimate w kwh = Some (\<bar>avg_price w\<bar> * kwh / 100)" if "avg_price w < 0"
    using that kwh
    by (simp add: get_earnings_estimate_def has_negative_pricing_def abs_mult abs_of_pos)
  have pos: "0 < \<bar>avg_price w\<bar> * kwh / 100" if "avg_price w < 0"
  proof -
    from that have "0 < \<bar>avg_price w\<bar>" by simp
    with kwh have "0 < \<bar>avg_price w\<bar> * kwh" by (intro mult_pos_pos)
    then show ?thesis by simp
  qed
  have none: "get_earnings_estimate w kwh = None" if "0 \<le> avg_price w"
    using that by (simp add: get_earnings_estimate_def has_negative_pricing_def)
  from neg est pos none show ?thesis by blast
qed

lemma paid_window:
  "find_optimal_window exact_ops default_analyzer (half_hourly_prices [- 5]) (half_hourly_carbon [100])
       (1 / 2) None
     = Inr \<lparr>start = 0, end_time = 1800000000, avg_price = - 5, avg_carbon = 100,
            total_cost = - (37 / 200), total_carbon = 370, opportunity_score = 100,
            rating = EXCELLENT, reason = ''both'', savings_vs_baseline = - (37 / 400)\<rparr>"
  by (simp add: eval_defs upt_rec)

theorem negative_price_earnings_witness:
  "find_optimal_window exact_ops default_analyzer (half_hourly_prices [- 5]) (half_hourly_carbon [100])
       (1 / 2) None
     = Inr \<lparr>start = 0, end_time = 1800000000, avg_price = - 5, avg_carbon = 100,
            total_cost = - (37 / 200), total_carbon = 370, opportunity_score = 100,
            rating = EXCELLENT, reason = ''both'', savings_vs_baseline = - (37 / 400)\<rparr>
   \<and> (0::real) < 30
   \<and> get_earnings_estimate
         \<lparr>start = 0, end_time = 1800000000, avg_price = - 5, avg_carbon = 100,
            total_cost = - (37 / 200), total_carbon = 370, opportunity_score = 100,
            rating = EXCELLENT, reason = ''both'', savings_vs_baseline = - (37 / 400)\<rparr> 30
       = Some (3 / 2)"
proof -
  have kwh: "(0::real) < 30" by simp
  from negative_price_earnings [OF paid_window kwh] paid_window show ?thesis by simp
qed

text \<open>
  C10.  For a charge duration strictly between 0 and 0.5 hours and inputs with at least one
  aligned slot, the window size is 0, the first window is the empty slice, its mean divides
  by zero, and \<open>find_optimal_window\<close> ends with \<open>ZeroDivisionError\<close>: it returns no window
  and does not raise the \<open>ValueError\<close> it documents.
\<close>

theorem short_duration_division_by_zero:
  assumes "0 < d" and "d < 1 / 2" and "align_data ps cs \<noteq> []"
  shows "py_int (d * 2) = 0
       \<and> window_score F a (py_slice (align_data ps cs) 0 (0 + py_int (d * 2))) = Inl ZeroDivisionError
       \<and> find_optimal_window F a ps cs d bt = Inl ZeroDivisionError"
proof -
  have "0 \<le> d * 2" "d * 2 < 1" using assms by simp_all
  then have fl: "\<lfloor>d * 2\<rfloor> = 0" by linarith
  then have k: "py_int (d * 2) = 0" using assms(1) by (simp add: py_int_def)
  have ws: "window_score F a (py_slice (align_data ps cs) 0 (0 + py_int (d * 2))) = Inl ZeroDivisionError"
    by (simp add: k py_slice_def window_score_Nil)
  have "search_windows F a (align_data ps cs) (py_int (d * 2))
          (py_range (int (length (align_data ps cs)) - py_int (d * 2) + 1)) (- 1, None)
        = Inl ZeroDivisionError"
    by (rule search_nonpositive_slots) (simp add: k)
  then have "find_optimal_window F a ps cs d bt = Inl ZeroDivisionError"
    by (simp add: find_optimal_window_unfold [OF assms(3)])
  with k ws show ?thesis by simp
qed

theorem short_duration_division_by_zero_witness:
  "(0::real) < 1 / 4 \<and> (1 / 4 :: real) < 1 / 2
   \<and> align_data (half_hourly_prices [20, 8, 8]) (half_hourly_carbon [200, 90, 90]) \<noteq> []
   \<and> find_optimal_window exact_ops default_analyzer (half_hourly_prices [20, 8, 8])
        (half_hourly_carbon [200, 90, 90]) (1 / 4) None = Inl ZeroDivisionError"
proof -
  have h1: "(0::real) < 1 / 4" and h2: "(1 / 4 :: real) < 1 / 2" by simp_all
  have h3: "align_data (half_hourly_prices [20, 8, 8]) (half_hourly_carbon [200, 90, 90]) \<noteq> []"
    by (simp add: demo_aligned)
  from short_duration_division_by_zero [OF h1 h2 h3, of exact_ops default_analyzer None] h1 h2 h3
  show ?thesis by simp
qed

section \<open>Forecast accuracy\<close>

lemma zip_errors_length:
  "length fs = length as \<Longrightarrow>
   length (map (\<lambda>(actual, forecast). actual - forecast) (zip as fs)) = length fs"
  by simp

text \<open>
  C7.  For equal-length non-empty forecast and actual price lists, \<open>record_comparison\<close>
  returns metrics whose mean error is the mean of the signed errors \<open>actual - forecast\<close>,
  whose mean absolute error is the mean of their absolute values, and the mean absolute
  error is at least the absolute value of the mean error.
\<close>

theorem mae_bounds_mean_error:
  assumes len: "length forecast_prices = length actual_prices"
    and ne: "forecast_prices \<noteq> []"
  shows "\<exists>store' m.
      record_comparison comparisons comparison_date now forecast_prices actual_prices source
        = Inr (store', m)
    \<and> mean_error m =
        sum_list (map (\<lambda>(actual, forecast). actual - forecast) (zip actual_prices forecast_prices))
          / real (length forecast_prices)
    \<and> mean_absolute_error m =
        sum_list (map (\<lambda>(actual, forecast). \<bar>actual - forecast\<bar>) (zip actual_prices forecast_prices))
          / real (length forecast_prices)
    \<and> \<bar>mean_error m\<bar> \<le> mean_absolute_error m"
proof -
  define errs where
    "errs = map (\<lambda>(actual, forecast). actual - forecast) (zip actual_prices forecast_prices)"
  define n where "n = length forecast_prices"
  have n: "length errs = n" using len by (simp add: errs_def n_def)
  have npos: "0 < real n" using ne by (simp add: n_def)
  have errs_ne: "errs \<noteq> []" using n npos by auto
  have "\<exists>m. comparison_metrics comparison_date now forecast_prices actual_prices source = Inr m
      \<and> mean_error m = sum_list errs / real n
      \<and> mean_absolute_error m = sum_list (map abs errs) / real n"
    using len errs_ne n
    by (simp add: comparison_metrics_def Let_def errs_def [symmetric])
  then obtain m
    where m: "comparison_metrics comparison_date now forecast_prices actual_prices source = Inr m"
    and me: "mean_error m = sum_list errs / real n"
    and mae: "mean_absolute_error m = sum_list (map abs errs) / real n"
    by blast
  have abs_map: "map abs errs
      = map (\<lambda>(actual, forecast). \<bar>actual - forecast\<bar>) (zip actual_prices forecast_prices)"
    unfolding errs_def map_map by (rule map_cong) auto
  have "\<bar>sum_list errs\<bar> \<le> sum_list (map abs errs)" by (rule sum_list_abs)
  then have "\<bar>sum_list errs\<bar> / real n \<le> sum_list (map abs errs) / real n"
    using npos by (simp add: divide_right_mono)
  then have le: "\<bar>mean_error m\<bar> \<le> mean_absolute_error m"
    using npos by (simp add: me mae)
  have rc: "record_comparison comparisons comparison_date now forecast_prices actual_prices source
        = Inr (save_comparison comparisons m, m)"
    using m by (simp add: record_comparison_def)
  note me' = me [unfolded errs_def n_def]
  note mae' = mae [unfolded abs_map n_def]
  from rc me' mae' le show ?thesis by blast
qed

theorem mae_bounds_mean_error_witness:
  "length [10, 10, 10 :: real] = length [12, 7, 10 :: real] \<and> [10, 10, 10 :: real] \<noteq> []
   \<and> (\<exists>store' m. record_comparison [] ''2025-12-08'' ''2025-12-09T06:00:00+00:00''
          [10, 10, 10] [12, 7, 10] ''guy_lipman'' = Inr (store', m)
        \<and> mean_error m = - (1 / 3) \<and> mean_absolute_error m = 5 / 3
        \<and> \<bar>mean_error m\<bar> \<le> mean_absolute_error m)"
proof -
  have h1: "length [10, 10, 10 :: real] = length [12, 7, 10 :: real]" by simp
  have h2: "[10, 10, 10 :: real] \<noteq> []" by simp
  from mae_bounds_mean_error [OF h1 h2, of "[]" "''2025-12-08''" "''2025-12-09T06:00:00+00:00''" "''guy_lipman''"]
  show ?thesis by auto
qed

lemma calculate_trend_short:
  "length mae_values < 8 \<Longrightarrow> calculate_trend F mae_values = ''insufficient_data''"
  by (simp add: calculate_trend_def Let_def)

lemma calculate_trend_long:
  assumes "8 \<le> length mae_values"
  shows "calculate_trend F mae_values =
     (let recent_avg = fdiv F (fsum F (take 7 mae_values)) 7;
          older_avg = fdiv F (fsum F (take 7 (drop 7 mae_values)))
                        (real (min 7 (length mae_values - 7)))
      in if recent_avg < fsub F older_avg (1 / 2) then ''improving''
         else if recent_avg > fadd F older_avg (1 / 2) then ''degrading''
         else ''stable'')"
proof -
  have r: "py_take 7 mae_values = take 7 mae_values"
    by (simp add: py_take_def py_slice_def Let_def min_def)
  have lr: "length (take 7 mae_values) = 7" using assms by simp
  define older where "older = (if length mae_values \<ge> 14 then py_slice mae_values 7 14
                       else drop 7 mae_values)"
  have o: "older = take 7 (drop 7 mae_values)"
  proof (cases "length mae_values \<ge> 14")
    case True
    then have "min (14::int) (int (length mae_values)) = 14" by simp
    then have "py_slice mae_values 7 14 = drop 7 (take 14 mae_values)"
      by (simp add: py_slice_def Let_def)
    also have "\<dots> = take 7 (drop 7 mae_values)" by (simp add: drop_take)
    finally show ?thesis using True by (simp add: older_def)
  next
    case False
    then show ?thesis by (simp add: older_def)
  qed
  have lo: "length older = min 7 (length mae_values - 7)" by (simp add: o min.commute)
  have one: "older \<noteq> []" using assms lo by (auto simp: min_def split: if_splits)
  show ?thesis
    using assms one
    by (simp add: calculate_trend_def Let_def r lr older_def [symmetric] lo) (simp add: o)
qed

text \<open>
  C9 (as the code has it).  With the selected records the \<open>days\<close> most recently dated ones:
  the trend is \<open>insufficient_data\<close> when nothing is stored or when one to seven records are
  selected, \<open>no_recent_data\<close> when records are stored and none is selected, and otherwise
  compares the mean MAE of the 7 most recent records with the mean MAE of the next older
  ones, up to 7 of them, the means and the sums with 0.5 as the code computes them in
  floats: \<open>improving\<close> if the recent mean is below the older mean minus 0.5, \<open>degrading\<close>
  if it is above the older mean plus 0.5, else \<open>stable\<close>.
\<close>

theorem recent_accuracy_trend:
  "trend (get_recent_accuracy F comparisons days) =
     (let recent = py_take days (sorted_reverse date comparisons);
          mae_values = map mean_absolute_error recent
      in if comparisons = [] then ''insufficient_data''
         else if recent = [] then ''no_recent_data''
         else if length recent < 8 then ''insufficient_data''
         else
           let recent_avg = fdiv F (fsum F (take 7 mae_values)) 7;
               older_avg = fdiv F (fsum F (take 7 (drop 7 mae_values)))
                             (real (min 7 (length mae_values - 7)))
           in if recent_avg < fsub F older_avg (1 / 2) then ''improving''
              else if recent_avg > fadd F older_avg (1 / 2) then ''degrading''
              else ''stable'')"
proof -
  define recent where "recent = py_take days (sorted_reverse date comparisons)"
  show ?thesis
  proof (cases "comparisons = []")
    case True
    then show ?thesis by (simp add: get_recent_accuracy_def early_stats_def Let_def)
  next
    case ne: False
    show ?thesis
    proof (cases "recent = []")
      case True
      then show ?thesis using ne
        by (simp add: get_recent_accuracy_def early_stats_def Let_def recent_def)
    next
      case nr: False
      have t: "trend (get_recent_accuracy F comparisons days)
                 = calculate_trend F (map mean_absolute_error recent)"
        using ne nr by (simp add: get_recent_accuracy_def Let_def recent_def)
      show ?thesis
      proof (cases "length recent < 8")
        case True
        then show ?thesis using ne nr t
          by (simp add: calculate_trend_short recent_def [symmetric] Let_def)
      next
        case False
        then have "8 \<le> length (map mean_absolute_error recent)" by simp
        from calculate_trend_long [OF this, of F] False ne nr t
        show ?thesis by (simp add: recent_def [symmetric] Let_def)
      qed
    qed
  qed
qed

lemma eight_days_sorted: "sorted_reverse date eight_days = rev eight_days"
  by (simp add: sorted_reverse_def eight_days_def day_record_def)

lemma shuffled_days_sorted:
  "map mean_absolute_error (sorted_reverse date shuffled_days) = [1, 2, 3, 2, 1, 3, 2, 4, 6]"
  by (simp add: sorted_reverse_def shuffled_days_def day_record_def)

theorem recent_accuracy_trend_witness:
  "map mean_absolute_error (py_take 30 (sorted_reverse date shuffled_days))
     = [1, 2, 3, 2, 1, 3, 2, 4, 6]
   \<and> map mean_absolute_error (py_take 30 shuffled_days) = [6, 4, 1, 1, 3, 3, 2, 2, 2]
   \<and> trend (get_recent_accuracy exact_ops shuffled_days 30) = ''improving''"
proof -
  have len: "length (sorted_reverse date shuffled_days) = 9"
    by (simp add: sorted_reverse_def shuffled_days_def)
  have take: "py_take 30 (sorted_reverse date shuffled_days) = sorted_reverse date shuffled_days"
    using len by (simp add: py_take_def py_slice_def)
  have ne: "shuffled_days \<noteq> []" by (simp add: shuffled_days_def)
  have 1: "map mean_absolute_error (py_take 30 (sorted_reverse date shuffled_days))
     = [1, 2, 3, 2, 1, 3, 2, 4, 6]"
    by (simp add: take shuffled_days_sorted)
  have 2: "map mean_absolute_error (py_take 30 shuffled_days) = [6, 4, 1, 1, 3, 3, 2, 2, 2]"
    by (simp add: py_take_def py_slice_def shuffled_days_def day_record_def)
  have ne2: "sorted_reverse date shuffled_days \<noteq> []" using len by auto
  have "trend (get_recent_accuracy exact_ops shuffled_days 30) = ''improving''"
    using recent_accuracy_trend [of exact_ops shuffled_days 30] ne ne2 len
    by (simp add: take Let_def shuffled_days_sorted exact_ops_def)
  with 1 2 show ?thesis by simp
qed

text \<open>
  The claim as stated fails: eight stored records are fewer than 14 and are classified
  (here as \<open>stable\<close>), the older group being the single eighth record; and a period of 0
  days reports \<open>no_recent_data\<close>.
\<close>

theorem recent_accuracy_trend_counterexample:
  "length (py_take 30 (sorted_reverse date eight_days)) = 8
   \<and> trend (get_recent_accuracy exact_ops eight_days 30) = ''stable''
   \<and> trend (get_recent_accuracy exact_ops eight_days 30) \<noteq> ''insufficient_data''
   \<and> trend (get_recent_accuracy exact_ops eight_days 0) = ''no_recent_data''"
  by (simp add: get_recent_accuracy_def eight_days_sorted py_take_def py_slice_def
      early_stats_def)
     (simp add: eight_days_def day_record_def calculate_trend_def py_take_def py_slice_def
        exact_ops_def)

section \<open>Forecast evolution\<close>

lemma spec_scores_nonneg:
  "0 \<le> spec_time_score days" "0 \<le> spec_source_score src" "0 \<le> spec_accuracy_score F mae"
  by (auto simp: spec_time_score_def spec_source_score_def spec_accuracy_score_def
      split: option.splits)

lemma spec_blend_nonneg:
  assumes "sign_preserving F"
  shows "0 \<le> spec_blend F days src mae"
proof -
  note n = spec_scores_nonneg(1) [of days] spec_scores_nonneg(2) [of src]
    spec_scores_nonneg(3) [of F mae]
  have 1: "0 \<le> fmul F (40 / 100) (spec_time_score days)"
    using assms n(1) by (simp add: sign_preserving_def)
  have 2: "0 \<le> fmul F (35 / 100) (spec_source_score src)"
    using assms n(2) by (simp add: sign_preserving_def)
  have 3: "0 \<le> fmul F (25 / 100) (spec_accuracy_score F mae)"
    using assms n(3) by (simp add: sign_preserving_def)
  from 1 2 assms
  have "0 \<le> fadd F (fmul F (40 / 100) (spec_time_score days))
                   (fmul F (35 / 100) (spec_source_score src))"
    by (simp add: sign_preserving_def)
  with 3 assms show ?thesis by (simp add: spec_blend_def sign_preserving_def)
qed

lemma confidence_blend:
  "calculate_confidence F days src mae = py_int (spec_blend F days src mae)"
proof -
  have t: "real_of_int (if days \<le> 1 then 100 else if days = 2 then 85
             else if days \<le> 4 then 60 else max 30 (100 - days * 10)) = spec_time_score days"
    by (simp add: spec_time_score_def max_def)
  have s: "real_of_int (if src = ''octopus_actual'' then 100 else 50) = spec_source_score src"
    by (simp add: spec_source_score_def)
  have a: "(case mae of None \<Rightarrow> 40
            | Some e \<Rightarrow> if e > 5 then 40 else if e < 2 then 100
                        else max 40 (fsub F 100 (fmul F e 12)))
           = spec_accuracy_score F mae"
    by (auto simp: spec_accuracy_score_def split: option.splits)
  show ?thesis
    unfolding calculate_confidence_def Let_def t s a spec_blend_def ..
qed

lemma py_round_bracket: "py_round x - 1 \<le> \<lfloor>x\<rfloor> \<and> \<lfloor>x\<rfloor> \<le> py_round x"
  by (simp add: py_round_def Let_def)

text \<open>
  C5 (as the code has it).  The confidence is the weighted blend of the three scores
  truncated to an integer by \<open>int()\<close>, not rounded: with float operations that keep
  non-negative sums and products non-negative it is the floor of the blend, which is the
  rounded blend or one less.  The three scores are as the claim gives them.
\<close>

theorem confidence_truncates:
  "calculate_confidence F days src mae = py_int (spec_blend F days src mae)
   \<and> (sign_preserving F \<longrightarrow>
        calculate_confidence F days src mae = \<lfloor>spec_blend F days src mae\<rfloor>
      \<and> py_round (spec_blend F days src mae) - 1 \<le> calculate_confidence F days src mae
      \<and> calculate_confidence F days src mae \<le> py_round (spec_blend F days src mae))"
proof (intro conjI impI)
  show "calculate_confidence F days src mae = py_int (spec_blend F days src mae)"
    by (rule confidence_blend)
next
  assume F: "sign_preserving F"
  from spec_blend_nonneg [OF F]
  show fl: "calculate_confidence F days src mae = \<lfloor>spec_blend F days src mae\<rfloor>"
    by (simp add: confidence_blend py_int_def)
  show "py_round (spec_blend F days src mae) - 1 \<le> calculate_confidence F days src mae"
    using fl py_round_bracket [of "spec_blend F days src mae"] by simp
  show "calculate_confidence F days src mae \<le> py_round (spec_blend F days src mae)"
    using fl py_round_bracket [of "spec_blend F days src mae"] by simp
qed

theorem confidence_truncates_witness:
  "sign_preserving exact_ops
   \<and> spec_blend exact_ops 3 ''forecast'' (Some 3) = 115 / 2
   \<and> calculate_confidence exact_ops 3 ''forecast'' (Some 3) = 57"
  using confidence_truncates [of exact_ops 3 "''forecast''" "Some 3"] sign_preserving_exact
  by (simp add: spec_blend_def spec_time_score_def spec_source_score_def
      spec_accuracy_score_def exact_ops_def)

text \<open>
  The claim as stated fails: for a target today, settled prices and a historical MAE of
  2.125 the blend is 40 + 35 + 18.625 = 93.625, which rounds to 94, and the confidence
  is 93.  Every intermediate value is a double, so the interpreter computes the same.
\<close>

theorem confidence_truncates_counterexample:
  "spec_blend exact_ops 0 ''octopus_actual'' (Some (17 / 8)) = 749 / 8
   \<and> py_round (spec_blend exact_ops 0 ''octopus_actual'' (Some (17 / 8))) = 94
   \<and> calculate_confidence exact_ops 0 ''octopus_actual'' (Some (17 / 8)) = 93
   \<and> calculate_confidence exact_ops 0 ''octopus_actual'' (Some (17 / 8))
       \<noteq> py_round (spec_blend exact_ops 0 ''octopus_actual'' (Some (17 / 8)))"
  by (simp add: spec_blend_def spec_time_score_def spec_source_score_def
      spec_accuracy_score_def calculate_confidence_def py_int_def py_round_def exact_ops_def)

lemma distinct_map_sort_key:
  "distinct (map f (sort_key f xs)) = distinct (map f xs)"
  by (simp add: distinct_map)

lemma replaced_dates_distinct:
  assumes "distinct (map f xs)" and "f new = d"
  shows "distinct (map f (filter (\<lambda>x. f x \<noteq> d) xs @ [new]))"
proof -
  have "distinct (map f (filter (\<lambda>x. f x \<noteq> d) xs))"
    using assms(1) by (rule distinct_map_filter)
  moreover have "d \<notin> set (map f (filter (\<lambda>x. f x \<noteq> d) xs))" by auto
  ultimately show ?thesis using assms(2) by simp
qed

lemma replaced_day_single:
  assumes "f new = d"
  shows "filter (\<lambda>x. f x = d) (sort_key f (filter (\<lambda>x. f x \<noteq> d) xs @ [new])) = [new]"
proof -
  have "filter (\<lambda>x. f x = d) (filter (\<lambda>x. f x \<noteq> d) xs) = []"
    by (induction xs) auto
  then show ?thesis using assms by (simp add: sort_key_stable)
qed

lemma build_snapshot_date [simp]:
  "snapshot_date (build_snapshot F today now target dc mae) = today"
  by (simp add: build_snapshot_def Let_def)

lemma record_snapshot_cases:
  assumes "record_snapshot F strptime today now tdate dc mae s = Inr s'"
  shows "s' = s \<or>
     (\<exists>target old. strptime tdate = Some target \<and> today \<le> target
        \<and> old = (case s tdate of None \<Rightarrow> [] | Some d \<Rightarrow> snapshots d)
        \<and> (\<exists>d'. s' tdate = Some d'
              \<and> snapshots d' = updated_snapshots F today now target dc mae old)
        \<and> (\<forall>other. other \<noteq> tdate \<longrightarrow> s' other = s other))"
  using assms
  by (auto simp: record_snapshot_def Let_def updated_snapshots_def
      split: option.splits if_splits)

lemma record_snapshot_preserves:
  assumes ok: "snapshots_ok s"
    and run: "record_snapshot F strptime today now tdate dc mae s = Inr s'"
  shows "snapshots_ok s'"
proof -
  from record_snapshot_cases [OF run] show ?thesis
  proof
    assume "s' = s"
    with ok show ?thesis by simp
  next
    assume "\<exists>target old. strptime tdate = Some target \<and> today \<le> target
        \<and> old = (case s tdate of None \<Rightarrow> [] | Some d \<Rightarrow> snapshots d)
        \<and> (\<exists>d'. s' tdate = Some d'
              \<and> snapshots d' = updated_snapshots F today now target dc mae old)
        \<and> (\<forall>other. other \<noteq> tdate \<longrightarrow> s' other = s other)"
    then obtain target old d' where
      old: "old = (case s tdate of None \<Rightarrow> [] | Some d \<Rightarrow> snapshots d)"
      and d': "s' tdate = Some d'"
        "snapshots d' = updated_snapshots F today now target dc mae old"
      and other: "\<forall>other. other \<noteq> tdate \<longrightarrow> s' other = s other"
      by blast
    have dd: "distinct (map snapshot_date old)"
      using ok old by (auto simp: snapshots_ok_def split: option.splits)
    have 1: "distinct (map snapshot_date (updated_snapshots F today now target dc mae old))"
      unfolding updated_snapshots_def distinct_map_sort_key
      by (rule replaced_dates_distinct [OF dd]) simp
    have 2: "sorted (map snapshot_date (updated_snapshots F today now target dc mae old))"
      unfolding updated_snapshots_def by (rule sorted_sort_key)
    show ?thesis
      unfolding snapshots_ok_def
    proof (intro allI impI)
      fix td' e
      assume a: "s' td' = Some e"
      show "distinct (map snapshot_date (snapshots e)) \<and> sorted (map snapshot_date (snapshots e))"
      proof (cases "td' = tdate")
        case True
        with a d' have "snapshots e = updated_snapshots F today now target dc mae old" by simp
        with 1 2 show ?thesis by simp
      next
        case False
        with a other have "s td' = Some e" by simp
        with ok show ?thesis by (simp add: snapshots_ok_def)
      qed
    qed
  qed
qed

lemma reachable_snapshots_ok: "reachable F strptime s \<Longrightarrow> snapshots_ok s"
proof (induction rule: reachable.induct)
  case initial
  then show ?case by (simp add: snapshots_ok_def)
next
  case (step s today now tdate day_comparison historical_mae s')
  then show ?case using record_snapshot_preserves by blast
qed

lemma record_snapshot_today:
  assumes "strptime tdate = Some target" and "today \<le> target"
    and "record_snapshot F strptime today now tdate dc mae s = Inr s'"
  shows "\<exists>d. s' tdate = Some d
     \<and> filter (\<lambda>x. snapshot_date x = today) (snapshots d)
         = [build_snapshot F today now target dc mae]"
  using assms
  by (auto simp: record_snapshot_def Let_def replaced_day_single split: option.splits)

lemma record_snapshot_total:
  assumes "strptime tdate = Some target"
  shows "\<exists>s'. record_snapshot F strptime today now tdate dc mae s = Inr s'"
  using assms by (simp add: record_snapshot_def Let_def)

text \<open>
  C6.  In every store that a sequence of \<^verbatim>\<open>record_snapshot\<close> calls produces, the
  snapshots of every target have pairwise different snapshot dates and are sorted by
  snapshot date.  From such a store, two calls on the same day for a target of that day
  or later both return, and leave exactly one snapshot of that day for the target: the
  one the second call built.
\<close>

theorem one_snapshot_per_day:
  assumes "reachable F strptime s"
  shows "(\<forall>tdate d. s tdate = Some d \<longrightarrow>
            distinct (map snapshot_date (snapshots d))
          \<and> sorted (map snapshot_date (snapshots d)))
       \<and> (\<forall>tdate target today now1 now2 dc1 dc2 mae1 mae2.
            strptime tdate = Some target \<and> today \<le> target \<longrightarrow>
            (\<exists>s1 s2 d.
                record_snapshot F strptime today now1 tdate dc1 mae1 s = Inr s1
              \<and> record_snapshot F strptime today now2 tdate dc2 mae2 s1 = Inr s2
              \<and> reachable F strptime s2
              \<and> s2 tdate = Some d
              \<and> filter (\<lambda>x. snapshot_date x = today) (snapshots d)
                  = [build_snapshot F today now2 target dc2 mae2]))"
proof (intro conjI allI impI)
  fix tdate d
  assume "s tdate = Some d"
  with reachable_snapshots_ok [OF assms]
  show "distinct (map snapshot_date (snapshots d))"
    and "sorted (map snapshot_date (snapshots d))"
    by (simp_all add: snapshots_ok_def)
next
  fix tdate target today now1 now2 dc1 dc2 mae1 mae2
  assume h: "strptime tdate = Some target \<and> today \<le> target"
  from record_snapshot_total [of strptime tdate target F today now1 dc1 mae1 s] h
  obtain s1 where s1: "record_snapshot F strptime today now1 tdate dc1 mae1 s = Inr s1" by blast
  from record_snapshot_total [of strptime tdate target F today now2 dc2 mae2 s1] h
  obtain s2 where s2: "record_snapshot F strptime today now2 tdate dc2 mae2 s1 = Inr s2" by blast
  have r1: "reachable F strptime s1" using assms s1 by (rule reachable.step)
  have r2: "reachable F strptime s2" using r1 s2 by (rule reachable.step)
  from record_snapshot_today [OF _ _ s2] h
  obtain d where "s2 tdate = Some d"
    "filter (\<lambda>x. snapshot_date x = today) (snapshots d) = [build_snapshot F today now2 target dc2 mae2]"
    by blast
  with s1 s2 r2
  show "\<exists>s1 s2 d.
                record_snapshot F strptime today now1 tdate dc1 mae1 s = Inr s1
              \<and> record_snapshot F strptime today now2 tdate dc2 mae2 s1 = Inr s2
              \<and> reachable F strptime s2
              \<and> s2 tdate = Some d
              \<and> filter (\<lambda>x. snapshot_date x = today) (snapshots d)
                  = [build_snapshot F today now2 target dc2 mae2]"
    by blast
qed

lemma build_snapshot_timestamp [simp]:
  "snapshot_timestamp (build_snapshot F today now target dc mae) = now"
  by (simp add: build_snapshot_def Let_def)

lemma demo_store_snapshots:
  "\<exists>d. demo_store ''2025-01-15'' = Some d
     \<and> snapshots d = [build_snapshot exact_ops 739264 ''2025-01-13T09:00:00+00:00'' 739266
                         first_forecast None]"
  by (simp add: demo_store_def record_snapshot_def demo_strptime_def Let_def)

lemma demo_store1_snapshots:
  "\<exists>d. demo_store1 ''2025-01-15'' = Some d
     \<and> snapshots d = [build_snapshot exact_ops 739264 ''2025-01-13T09:00:00+00:00'' 739266
                         first_forecast None,
                       build_snapshot exact_ops 739265 ''2025-01-14T09:00:00+00:00'' 739266
                         first_forecast None]"
proof -
  from demo_store_snapshots obtain d where
    "demo_store ''2025-01-15'' = Some d"
    "snapshots d = [build_snapshot exact_ops 739264 ''2025-01-13T09:00:00+00:00'' 739266
                      first_forecast None]"
    by blast
  then show ?thesis
    by (simp add: demo_store1_def record_snapshot_def demo_strptime_def Let_def)
qed

lemma demo_store2_snapshots:
  "\<exists>d. demo_store2 ''2025-01-15'' = Some d
     \<and> snapshots d = [build_snapshot exact_ops 739264 ''2025-01-13T09:00:00+00:00'' 739266
                         first_forecast None,
                       build_snapshot exact_ops 739265 ''2025-01-14T17:00:00+00:00'' 739266
                         second_forecast (Some 3)]"
proof -
  from demo_store1_snapshots obtain d where
    "demo_store1 ''2025-01-15'' = Some d"
    "snapshots d = [build_snapshot exact_ops 739264 ''2025-01-13T09:00:00+00:00'' 739266
                      first_forecast None,
                    build_snapshot exact_ops 739265 ''2025-01-14T09:00:00+00:00'' 739266
                      first_forecast None]"
    by blast
  then show ?thesis
    by (simp add: demo_store2_def record_snapshot_def demo_strptime_def Let_def)
qed

theorem one_snapshot_per_day_witness:
  "reachable exact_ops demo_strptime demo_store
   \<and> map snapshot_date (snapshots (the (demo_store ''2025-01-15''))) = [739264]
   \<and> demo_strptime ''2025-01-15'' = Some 739266 \<and> (739265 :: int) \<le> 739266
   \<and> record_snapshot exact_ops demo_strptime 739265 ''2025-01-14T09:00:00+00:00''
         ''2025-01-15'' first_forecast None demo_store = Inr demo_store1
   \<and> record_snapshot exact_ops demo_strptime 739265 ''2025-01-14T17:00:00+00:00''
         ''2025-01-15'' second_forecast (Some 3) demo_store1 = Inr demo_store2
   \<and> reachable exact_ops demo_strptime demo_store2
   \<and> map snapshot_date (snapshots (the (demo_store2 ''2025-01-15''))) = [739264, 739265]
   \<and> map snapshot_timestamp (snapshots (the (demo_store2 ''2025-01-15'')))
       = [''2025-01-13T09:00:00+00:00'', ''2025-01-14T17:00:00+00:00'']
   \<and> map confidence_score (snapshots (the (demo_store2 ''2025-01-15''))) = [61, 91]"
proof -
  have e0: "record_snapshot exact_ops demo_strptime 739264 ''2025-01-13T09:00:00+00:00''
              ''2025-01-15'' first_forecast None Map.empty = Inr demo_store"
    by (simp add: demo_store_def record_snapshot_def demo_strptime_def Let_def)
  have r0: "reachable exact_ops demo_strptime demo_store"
    by (rule reachable.step [OF reachable.initial e0])
  have p: "demo_strptime ''2025-01-15'' = Some 739266 \<and> (739265 :: int) \<le> 739266"
    by (simp add: demo_strptime_def)
  note T = one_snapshot_per_day [OF r0]
  from T p have "\<exists>s1 s2 d.
      record_snapshot exact_ops demo_strptime 739265 ''2025-01-14T09:00:00+00:00''
         ''2025-01-15'' first_forecast None demo_store = Inr s1
    \<and> record_snapshot exact_ops demo_strptime 739265 ''2025-01-14T17:00:00+00:00''
         ''2025-01-15'' second_forecast (Some 3) s1 = Inr s2
    \<and> reachable exact_ops demo_strptime s2
    \<and> s2 ''2025-01-15'' = Some d
    \<and> filter (\<lambda>x. snapshot_date x = 739265) (snapshots d)
        = [build_snapshot exact_ops 739265 ''2025-01-14T17:00:00+00:00'' 739266
             second_forecast (Some 3)]"
    by blast
  then obtain s1 s2 where
    s1: "record_snapshot exact_ops demo_strptime 739265 ''2025-01-14T09:00:00+00:00''
         ''2025-01-15'' first_forecast None demo_store = Inr s1"
    and s2: "record_snapshot exact_ops demo_strptime 739265 ''2025-01-14T17:00:00+00:00''
         ''2025-01-15'' second_forecast (Some 3) s1 = Inr s2"
    and r2: "reachable exact_ops demo_strptime s2"
    by blast
  have q1: "s1 = demo_store1" unfolding demo_store1_def s1 by simp
  have q2: "s2 = demo_store2" unfolding demo_store2_def q1 [symmetric] s2 by simp
  from demo_store_snapshots
  have a: "map snapshot_date (snapshots (the (demo_store ''2025-01-15''))) = [739264]"
    by auto
  from demo_store2_snapshots obtain d where
    d: "demo_store2 ''2025-01-15'' = Some d"
    "snapshots d = [build_snapshot exact_ops 739264 ''2025-01-13T09:00:00+00:00'' 739266
                      first_forecast None,
                    build_snapshot exact_ops 739265 ''2025-01-14T17:00:00+00:00'' 739266
                      second_forecast (Some 3)]"
    by blast
  have b: "map snapshot_date (snapshots (the (demo_store2 ''2025-01-15''))) = [739264, 739265]"
    using d by simp
  have c: "map snapshot_timestamp (snapshots (the (demo_store2 ''2025-01-15'')))
       = [''2025-01-13T09:00:00+00:00'', ''2025-01-14T17:00:00+00:00'']"
    using d by simp
  have e: "map confidence_score (snapshots (the (demo_store2 ''2025-01-15''))) = [61, 91]"
    using d
    by (simp add: build_snapshot_def Let_def calculate_confidence_def first_forecast_def
        second_forecast_def exact_ops_def py_int_def)
  from r0 a p s1 s2 r2 b c e show ?thesis unfolding q1 q2 by blast
qed

section \<open>Threshold tuning\<close>

lemma floor_quarter: "\<lfloor>real m / 4\<rfloor> = int (m div 4)"
  using floor_divide_of_nat_eq [of m 4, where ?'a = real] by simp

lemma floor_half: "\<lfloor>real m / 2\<rfloor> = int (m div 2)"
  using floor_divide_of_nat_eq [of m 2, where ?'a = real] by simp

lemma quantiles_first:
  assumes "7 \<le> length xs"
  shows "\<exists>qs. quantiles F xs 4 = Inr qs \<and> qs ! 0 = first_quartile F xs"
proof -
  define d where "d = sort xs"
  define ld where "ld = length xs"
  define j where "j = (ld + 1) div 4"
  define r where "r = (ld + 1) mod 4"
  have ld: "length d = ld" by (simp add: d_def ld_def)
  have ld7: "7 \<le> ld" using assms by (simp add: ld_def)
  have split: "ld + 1 = 4 * j + r" by (simp add: j_def r_def)
  have r4: "r < 4" by (simp add: r_def)
  have j1: "\<not> j < 1" using ld7 by (simp add: j_def)
  have j2: "\<not> j > ld - 1" using ld7 by (simp add: j_def)
  have delta: "int (1 * (ld + 1)) - int (j * 4) = int r" using split by simp
  have w: "int 4 - int r = int (4 - r)" using r4 by simp
  have up: "[1..<4] = [1, 2, 3]" by (simp add: upt_rec)
  define f where "f = (\<lambda>i.
             let j0 = i * (ld + 1) div 4;
                 j = (if j0 < 1 then 1 else if j0 > ld - 1 then ld - 1 else j0);
                 delta = int (i * (ld + 1)) - int (j * 4)
             in fdiv F (fadd F (fmul F (d ! (j - 1)) (real_of_int (int 4 - delta)))
                               (fmul F (d ! j) (real_of_int delta)))
                       (real 4))"
  have n1: "\<not> (4::nat) < 1" by simp
  have l2: "\<not> ld < 2" using ld7 by simp
  have q: "quantiles F xs 4 = Inr (map f [1..<4])"
    unfolding quantiles_def Let_def d_def [symmetric] ld f_def
    by (simp only: n1 l2 if_False)
  have j0: "1 * (ld + 1) div 4 = j" by (simp add: j_def)
  have clamp: "(if j < 1 then 1 else if j > ld - 1 then ld - 1 else j) = j"
    using j1 j2 by simp
  have a: "real_of_int (int 4 - int r) = real (4 - r)"
    unfolding w by (rule of_int_of_nat_eq)
  have b: "real_of_int (int r) = real r" by simp
  have c: "real 4 = 4" by simp
  have "f 1 = fdiv F (fadd F (fmul F (d ! (j - 1)) (real (4 - r))) (fmul F (d ! j) (real r))) 4"
    unfolding f_def Let_def j0 clamp delta a b c ..
  also have "\<dots> = first_quartile F xs"
    unfolding first_quartile_def Let_def d_def ld_def j_def r_def ..
  finally have "map f [1..<4] ! 0 = first_quartile F xs" by (simp add: up)
  with q show ?thesis by simp
qed

lemma median_middle:
  assumes "7 \<le> length xs"
  shows "median F xs = Inr (middle_value F xs)"
proof -
  have ne: "sort xs \<noteq> []"
  proof
    assume "sort xs = []"
    then have "length (sort xs) = 0" by simp
    then have "length xs = 0" by (simp only: length_sort)
    with assms show False by simp
  qed
  show ?thesis
  proof (cases "odd (length xs)")
    case True
    then have "length xs mod 2 = 1" by presburger
    with ne True show ?thesis by (simp add: median_def middle_value_def Let_def)
  next
    case False
    then have "length xs mod 2 = 0" by presburger
    with ne False show ?thesis by (simp add: median_def middle_value_def Let_def)
  qed
qed

lemma first_quartile_percentile: "first_quartile exact_ops xs = percentile 25 xs"
proof -
  define d where "d = sort xs"
  define ld where "ld = length xs"
  define j where "j = (ld + 1) div 4"
  define r where "r = (ld + 1) mod 4"
  have split: "ld + 1 = 4 * j + r" by (simp add: j_def r_def)
  have r4: "r < 4" by (simp add: r_def)
  have h: "25 / 100 * real (length xs + 1) = real (ld + 1) / 4" by (simp add: ld_def)
  have fl: "nat \<lfloor>real (ld + 1) / 4\<rfloor> = j"
    unfolding floor_quarter j_def by (rule nat_int)
  from split have "real (ld + 1) = real (4 * j + r)" by (rule arg_cong)
  then have eq: "real (ld + 1) = 4 * real j + real r"
    by (simp only: of_nat_add of_nat_mult of_nat_numeral)
  have gen: "\<And>X J R :: real. X = 4 * J + R \<Longrightarrow> X / 4 - J = R / 4"
    by (simp add: field_simps)
  have frac: "real (ld + 1) / 4 - real j = real r / 4" by (rule gen [OF eq])
  have p: "percentile 25 xs = d ! (j - 1) + real r / 4 * (d ! j - d ! (j - 1))"
    unfolding percentile_def Let_def h fl frac d_def [symmetric] ..
  have rr: "real (4 - r) = 4 - real r" using r4 by (simp add: of_nat_diff)
  have q: "first_quartile exact_ops xs
      = (d ! (j - 1) * real (4 - r) + d ! j * real r) / 4"
    by (simp add: first_quartile_def Let_def exact_ops_def d_def ld_def j_def r_def)
  have "(d ! (j - 1) * real (4 - r) + d ! j * real r) / 4
      = d ! (j - 1) + real r / 4 * (d ! j - d ! (j - 1))"
    unfolding rr by (simp add: field_simps)
  with p q show ?thesis by simp
qed

lemma middle_value_percentile: "middle_value exact_ops xs = percentile 50 xs"
proof -
  define d where "d = sort xs"
  define n where "n = length xs"
  have h: "50 / 100 * real (length xs + 1) = real (n + 1) / 2" by (simp add: n_def)
  have fl: "nat \<lfloor>real (n + 1) / 2\<rfloor> = (n + 1) div 2"
    unfolding floor_half by (rule nat_int)
  show ?thesis
  proof (cases "odd n")
    case True
    then have half: "(n + 1) div 2 = n div 2 + 1" by presburger
    from True have "n + 1 = 2 * (n div 2 + 1)" by presburger
    then have "real (n + 1) = real (2 * (n div 2 + 1))" by (rule arg_cong)
    then have eq: "real (n + 1) = 2 * real (n div 2 + 1)"
      by (simp only: of_nat_mult of_nat_numeral)
    have gen: "\<And>X H :: real. X = 2 * H \<Longrightarrow> X / 2 - H = 0" by simp
    have frac: "real (n + 1) / 2 - real ((n + 1) div 2) = 0"
      unfolding half by (rule gen [OF eq])
    have "percentile 50 xs = d ! (n div 2)"
      unfolding percentile_def Let_def h fl frac d_def [symmetric] unfolding half by simp
    moreover have "middle_value exact_ops xs = d ! (n div 2)"
      using True by (simp add: middle_value_def Let_def d_def n_def)
    ultimately show ?thesis by simp
  next
    case False
    then have half: "(n + 1) div 2 = n div 2" by presburger
    from False have "n + 1 = 2 * (n div 2) + 1" by presburger
    then have "real (n + 1) = real (2 * (n div 2) + 1)" by (rule arg_cong)
    then have eq: "real (n + 1) = 2 * real (n div 2) + 1"
      by (simp only: of_nat_add of_nat_mult of_nat_numeral of_nat_1)
    have gen: "\<And>X H :: real. X = 2 * H + 1 \<Longrightarrow> X / 2 - H = 1 / 2"
      by (simp add: field_simps)
    have frac: "real (n + 1) / 2 - real ((n + 1) div 2) = 1 / 2"
      unfolding half by (rule gen [OF eq])
    have "percentile 50 xs = d ! (n div 2 - 1) + 1 / 2 * (d ! (n div 2) - d ! (n div 2 - 1))"
      unfolding percentile_def Let_def h fl frac d_def [symmetric] unfolding half ..
    then have "percentile 50 xs = (d ! (n div 2 - 1) + d ! (n div 2)) / 2"
      by (simp add: field_simps)
    moreover have "middle_value exact_ops xs = (d ! (n div 2 - 1) + d ! (n div 2)) / 2"
      using False by (simp add: middle_value_def Let_def exact_ops_def d_def n_def)
    ultimately show ?thesis by simp
  qed
qed

lemma fround_exact_1: "fround exact_ops x 1 = py_round1 x"
  by (simp add: exact_ops_def py_round1_def)

lemma thresholds_general:
  assumes "7 \<le> length prices"
  shows "calculate_optimal_thresholds F prices days
           = Inr (fround F (first_quartile F prices) 1, fround F (middle_value F prices) 1)"
proof -
  from quantiles_first [OF assms, of F]
  obtain qs where qs: "quantiles F prices 4 = Inr qs" "qs ! 0 = first_quartile F prices"
    by blast
  with median_middle [OF assms, of F] assms show ?thesis
    by (simp add: calculate_optimal_thresholds_def)
qed

lemma eleven_prices_thresholds:
  "calculate_optimal_thresholds exact_ops eleven_prices 11 = Inr (7, 10)"
proof -
  have l: "7 \<le> length eleven_prices" by (simp add: eleven_prices_def)
  have q: "first_quartile exact_ops eleven_prices = 7"
    by (simp add: first_quartile_def eleven_prices_def Let_def exact_ops_def)
  have m: "middle_value exact_ops eleven_prices = 10"
    by (simp add: middle_value_def eleven_prices_def Let_def exact_ops_def)
  show ?thesis
    unfolding thresholds_general [OF l] q m fround_exact_1
    by (simp add: py_round1_def py_round_def)
qed

text \<open>
  C4.  Fewer than 7 prices give the defaults (10.0, 15.0).  At least 7 prices give the
  first quartile and the median of the prices, each rounded to one decimal; without
  rounding errors these are the 25th and the 50th percentile.  For the 11 prices
  5, 6, ..., 15 the result is (7.0, 10.0): excellent is within 0.5 of 7.5, the tolerance
  of the repository's test, and good is 10.0.
\<close>

theorem optimal_thresholds:
  "(length prices < 7 \<longrightarrow> calculate_optimal_thresholds F prices days = Inr (10, 15))
   \<and> (7 \<le> length prices \<longrightarrow>
         calculate_optimal_thresholds F prices days
           = Inr (fround F (first_quartile F prices) 1, fround F (middle_value F prices) 1)
       \<and> calculate_optimal_thresholds exact_ops prices days
           = Inr (py_round1 (percentile 25 prices), py_round1 (percentile 50 prices)))
   \<and> (\<exists>excellent good.
         calculate_optimal_thresholds exact_ops eleven_prices 11 = Inr (excellent, good)
       \<and> excellent = 7 \<and> \<bar>excellent - 15 / 2\<bar> \<le> 1 / 2
       \<and> good = 10)"
proof (intro conjI impI)
  assume "length prices < 7"
  then show "calculate_optimal_thresholds F prices days = Inr (10, 15)"
    by (simp add: calculate_optimal_thresholds_def)
next
  assume len: "7 \<le> length prices"
  show "calculate_optimal_thresholds F prices days
           = Inr (fround F (first_quartile F prices) 1, fround F (middle_value F prices) 1)"
    by (rule thresholds_general [OF len])
  show "calculate_optimal_thresholds exact_ops prices days
           = Inr (py_round1 (percentile 25 prices), py_round1 (percentile 50 prices))"
    unfolding thresholds_general [OF len] fround_exact_1
      first_quartile_percentile middle_value_percentile ..
next
  show "\<exists>excellent good.
         calculate_optimal_thresholds exact_ops eleven_prices 11 = Inr (excellent, good)
       \<and> excellent = 7 \<and> \<bar>excellent - 15 / 2\<bar> \<le> 1 / 2
       \<and> good = 10"
    using eleven_prices_thresholds by simp
qed

theorem optimal_thresholds_witness:
  "length [10, 12, 8, 11, 9 :: real] < 7
   \<and> calculate_optimal_thresholds exact_ops [10, 12, 8, 11, 9] 30 = Inr (10, 15)
   \<and> 7 \<le> length eleven_prices
   \<and> calculate_optimal_thresholds exact_ops eleven_prices 11
       = Inr (py_round1 (percentile 25 eleven_prices), py_round1 (percentile 50 eleven_prices))
   \<and> percentile 25 eleven_prices = 7 \<and> percentile 50 eleven_prices = 10"
proof -
  have p25: "percentile 25 eleven_prices = 7"
    by (simp add: percentile_def eleven_prices_def Let_def)
  have p50: "percentile 50 eleven_prices = 10"
    by (simp add: percentile_def eleven_prices_def Let_def)
  have l: "7 \<le> length eleven_prices" by (simp add: eleven_prices_def)
  have s: "length [10, 12, 8, 11, 9 :: real] < 7" by simp
  from optimal_thresholds [of "[10, 12, 8, 11, 9]" exact_ops 30] s
  have a: "calculate_optimal_thresholds exact_ops [10, 12, 8, 11, 9] 30 = Inr (10, 15)"
    by blast
  from optimal_thresholds [of eleven_prices exact_ops 11] l
  have b: "calculate_optimal_thresholds exact_ops eleven_prices 11
       = Inr (py_round1 (percentile 25 eleven_prices), py_round1 (percentile 50 eleven_prices))"
    by blast
  from s a l b p25 p50 show ?thesis by blast
qed

end
